theory Spec2Isabelle
  imports Main "HOL-Library.Sublist"
begin

section \<open>The file system the build script runs on\<close>

text \<open>
  A path is the list of its components below the root, as \<^verbatim>\<open>pathlib\<close> keeps them in
  \<^verbatim>\<open>parts\<close>. Every path the script builds starts from
  \<^verbatim>\<open>Path(__file__).parent.resolve()\<close> and is absolute; a relative path is read as
  already joined to the working directory, which is the first thing \<^verbatim>\<open>resolve\<close> does.
  A path that is not yet resolved may hold the components \<open>''.''\<close> and \<open>''..''\<close>.
\<close>

type_synonym path = "string list"

datatype link = Absolute "string list" | Relative "string list"

datatype node = File string | Symlink link | Dir "(string \<times> node) list"

text \<open>
  The file system is the tree below the root together with the number of symbolic links
  one resolution may follow. Python's \<^verbatim>\<open>Path.resolve()\<close> raises
  \<^verbatim>\<open>RuntimeError\<close> on a symlink loop; here a resolution that runs out of links is
  \<open>None\<close>. Every theorem below holds for every value of the bound.
\<close>

record filesystem =
  tree :: node
  max_symlinks :: nat

fun lookup :: "node \<Rightarrow> path \<Rightarrow> node option" where
  "lookup n [] = Some n"
| "lookup (Dir es) (c # p) = (case map_of es c of None \<Rightarrow> None | Some n \<Rightarrow> lookup n p)"
| "lookup (File s) (c # p) = None"
| "lookup (Symlink l) (c # p) = None"

text \<open>
  \<^verbatim>\<open>os.path.realpath\<close> (non-strict): components are taken left to right; an empty
  component and \<open>''.''\<close> are skipped, \<open>''..''\<close> drops the last component of what is
  resolved so far, a symbolic link is replaced by its target, and a component that does
  not exist is kept as it is.
\<close>

fun realpath :: "nat \<Rightarrow> node \<Rightarrow> path \<Rightarrow> string list \<Rightarrow> path option" where
  "realpath n t acc [] = Some acc"
| "realpath n t acc (c # rest) =
     (if c = [] \<or> c = ''.'' then realpath n t acc rest
      else if c = ''..'' then realpath n t (butlast acc) rest
      else case lookup t (acc @ [c]) of
             Some (Symlink l) \<Rightarrow>
               (case n of
                  0 \<Rightarrow> None
                | Suc m \<Rightarrow>
                    (case l of
                       Absolute ps \<Rightarrow> realpath m t [] (ps @ rest)
                     | Relative ps \<Rightarrow> realpath m t acc (ps @ rest)))
           | _ \<Rightarrow> realpath n t (acc @ [c]) rest)"

definition resolve :: "filesystem \<Rightarrow> path \<Rightarrow> path option" where
  "resolve fs p = realpath (max_symlinks fs) (tree fs) [] p"

text \<open>\<^verbatim>\<open>Path.parent\<close>: the parent of the root is the root.\<close>

definition parent :: "path \<Rightarrow> path" where
  "parent p = butlast p"

text \<open>
  \<^verbatim>\<open>PurePath.relative_to\<close> compares components, never characters: it returns the
  remaining components when the root's components are a prefix of the path's, and raises
  \<^verbatim>\<open>ValueError\<close> (here \<open>None\<close>) otherwise.
\<close>

definition relative_to :: "path \<Rightarrow> path \<Rightarrow> path option" where
  "relative_to p root = (if prefix root p then Some (drop (length root) p) else None)"

text \<open>\<^verbatim>\<open>is_file\<close>, \<^verbatim>\<open>is_dir\<close> and \<^verbatim>\<open>exists\<close> follow symbolic links and answer
  \<open>False\<close> on any failure.\<close>

definition stat :: "filesystem \<Rightarrow> path \<Rightarrow> node option" where
  "stat fs p = (case resolve fs p of None \<Rightarrow> None | Some c \<Rightarrow> lookup (tree fs) c)"

definition is_file :: "filesystem \<Rightarrow> path \<Rightarrow> bool" where
  "is_file fs p = (case stat fs p of Some (File s) \<Rightarrow> True | _ \<Rightarrow> False)"

definition is_dir :: "filesystem \<Rightarrow> path \<Rightarrow> bool" where
  "is_dir fs p = (case stat fs p of Some (Dir es) \<Rightarrow> True | _ \<Rightarrow> False)"

definition exists_path :: "filesystem \<Rightarrow> path \<Rightarrow> bool" where
  "exists_path fs p = (stat fs p \<noteq> None)"

text \<open>Removing the entry at a resolved path: \<^verbatim>\<open>unlink\<close> of a file,
  \<^verbatim>\<open>shutil.rmtree\<close> of a directory. The root itself is never removed.\<close>

fun remove_at :: "node \<Rightarrow> path \<Rightarrow> node" where
  "remove_at n [] = n"
| "remove_at (Dir es) [c] = Dir (filter (\<lambda>e. fst e \<noteq> c) es)"
| "remove_at (Dir es) (c # p) =
     Dir (map (\<lambda>e. if fst e = c then (fst e, remove_at (snd e) p) else e) es)"
| "remove_at (File s) (c # p) = File s"
| "remove_at (Symlink l) (c # p) = Symlink l"

definition remove_path :: "filesystem \<Rightarrow> path \<Rightarrow> filesystem" where
  "remove_path fs p = fs\<lparr>tree := remove_at (tree fs) p\<rparr>"

text \<open>Placing a node at a resolved path whose parent is a directory.\<close>

fun put :: "node \<Rightarrow> path \<Rightarrow> node \<Rightarrow> node" where
  "put n [] new = n"
| "put (Dir es) [c] new =
     Dir (if c \<in> fst ` set es then map (\<lambda>e. if fst e = c then (c, new) else e) es
          else es @ [(c, new)])"
| "put (Dir es) (c # p) new =
     Dir (map (\<lambda>e. if fst e = c then (fst e, put (snd e) p new) else e) es)"
| "put (File s) (c # p) new = File s"
| "put (Symlink l) (c # p) new = Symlink l"

section \<open>Errors\<close>

text \<open>
  Every \<^verbatim>\<open>raise BuildError(...)\<close> of the script is one constructor, carrying what its
  message names. Any other exception is \<open>OtherException\<close> with the name of its class.
\<close>

datatype build_error =
    OutsideProject path path
  | GitProtected path
  | OutsideOutput path path
  | NotDirectChild path
  | NotAFile path
  | NotADirectory path
  | NotInAllowedLocations path
  | OutputDirInvalid path path
  | ProjectDirIsRoot
  | InfoJsonNotFound path
  | VersionFieldMissing
  | NameFieldMissing
  | ChangelogNotFound path
  | NoVersionInChangelog
  | InfoVersionFormat string
  | ChangelogVersionFormat string
  | VersionMismatch string string
  | PreviousVersionFormat string
  | SevenZipMissing
  | BackupFailed string
  | FactorioNotFound path
  | FactorioFailed int
  | TagExists string
  | PreviousTagMissing string
  | GhMissing
  | PackageNotFound path

datatype exn = BuildError build_error | KeyboardInterrupt | OtherException string

section \<open>SafeFileOps\<close>

record SafeFileOps =
  project_dir :: path
  output_dir :: path

text \<open>\<^verbatim>\<open>_is_git_path\<close>: the bare \<^verbatim>\<open>except\<close> turns every failure into \<open>False\<close>.\<close>

definition is_git_path :: "SafeFileOps \<Rightarrow> filesystem \<Rightarrow> path \<Rightarrow> bool" where
  "is_git_path ops fs p =
     (case resolve fs p of
        None \<Rightarrow> False
      | Some resolved \<Rightarrow>
          (case resolve fs (project_dir ops @ [''.git'']) of
             None \<Rightarrow> False
           | Some git_dir \<Rightarrow>
               if resolved = git_dir then True
               else (case relative_to resolved git_dir of Some r \<Rightarrow> True | None \<Rightarrow> False)))"

definition validate_path_in_project ::
  "SafeFileOps \<Rightarrow> filesystem \<Rightarrow> path \<Rightarrow> bool \<Rightarrow> exn + path" where
  "validate_path_in_project ops fs p allow_git =
     (case resolve fs p of
        None \<Rightarrow> Inl (OtherException ''RuntimeError'')
      | Some resolved \<Rightarrow>
          (case relative_to resolved (project_dir ops) of
             None \<Rightarrow> Inl (BuildError (OutsideProject resolved (project_dir ops)))
           | Some r \<Rightarrow>
               if \<not> allow_git \<and> is_git_path ops fs resolved
               then Inl (BuildError (GitProtected resolved))
               else Inr resolved))"

definition validate_path_in_output :: "SafeFileOps \<Rightarrow> filesystem \<Rightarrow> path \<Rightarrow> exn + path" where
  "validate_path_in_output ops fs p =
     (case resolve fs p of
        None \<Rightarrow> Inl (OtherException ''RuntimeError'')
      | Some resolved \<Rightarrow>
          (case relative_to resolved (output_dir ops) of
             None \<Rightarrow> Inl (BuildError (OutsideOutput resolved (output_dir ops)))
           | Some r \<Rightarrow>
               if parent resolved \<noteq> output_dir ops
               then Inl (BuildError (NotDirectChild resolved))
               else Inr resolved))"

text \<open>
  The four mutating operations return what they raise, or \<open>Inr ()\<close>, together with the
  file system they leave behind. Permissions are not part of the model, so the system
  call itself does not fail once the checks before it have passed.
\<close>

definition safe_unlink ::
  "SafeFileOps \<Rightarrow> filesystem \<Rightarrow> path \<Rightarrow> (exn + unit) \<times> filesystem" where
  "safe_unlink ops fs p =
     (case validate_path_in_project ops fs p False of
        Inl e \<Rightarrow> (Inl e, fs)
      | Inr validated \<Rightarrow>
          if \<not> is_file fs validated then (Inl (BuildError (NotAFile validated)), fs)
          else (Inr (), remove_path fs validated))"

definition safe_rmtree ::
  "SafeFileOps \<Rightarrow> filesystem \<Rightarrow> path \<Rightarrow> (exn + unit) \<times> filesystem" where
  "safe_rmtree ops fs p =
     (case validate_path_in_project ops fs p False of
        Inl e \<Rightarrow> (Inl e, fs)
      | Inr validated \<Rightarrow>
          if \<not> is_dir fs validated then (Inl (BuildError (NotADirectory validated)), fs)
          else (Inr (), remove_path fs validated))"

text \<open>\<^verbatim>\<open>open(validated, 'w')\<close> followed by \<^verbatim>\<open>write\<close>; the script never passes
  another mode.\<close>

definition open_write :: "filesystem \<Rightarrow> path \<Rightarrow> string \<Rightarrow> (exn + unit) \<times> filesystem" where
  "open_write fs p content =
     (case resolve fs p of
        None \<Rightarrow> (Inl (OtherException ''OSError''), fs)
      | Some c \<Rightarrow>
          if c = [] then (Inl (OtherException ''IsADirectoryError''), fs)
          else (case lookup (tree fs) (parent c) of
                  Some (Dir es) \<Rightarrow>
                    (case lookup (tree fs) c of
                       Some (Dir es') \<Rightarrow> (Inl (OtherException ''IsADirectoryError''), fs)
                     | _ \<Rightarrow> (Inr (), fs\<lparr>tree := put (tree fs) c (File content)\<rparr>))
                | Some other \<Rightarrow> (Inl (OtherException ''NotADirectoryError''), fs)
                | None \<Rightarrow> (Inl (OtherException ''FileNotFoundError''), fs)))"

definition safe_write ::
  "SafeFileOps \<Rightarrow> filesystem \<Rightarrow> path \<Rightarrow> string \<Rightarrow> (exn + unit) \<times> filesystem" where
  "safe_write ops fs p content =
     (case resolve fs p of
        None \<Rightarrow> (Inl (OtherException ''RuntimeError''), fs)
      | Some resolved \<Rightarrow>
          (case relative_to resolved (project_dir ops) of
             Some r \<Rightarrow>
               (case validate_path_in_project ops fs p False of
                  Inl e \<Rightarrow> (Inl e, fs)
                | Inr validated \<Rightarrow> open_write fs validated content)
           | None \<Rightarrow>
               (case relative_to resolved (output_dir ops) of
                  Some r \<Rightarrow>
                    (case validate_path_in_output ops fs p of
                       Inl e \<Rightarrow> (Inl e, fs)
                     | Inr validated \<Rightarrow> open_write fs validated content)
                | None \<Rightarrow> (Inl (BuildError (NotInAllowedLocations resolved)), fs))))"

text \<open>\<^verbatim>\<open>Path.mkdir\<close> with \<^verbatim>\<open>parents=False\<close>, the only way the script calls it.\<close>

definition mkdir :: "filesystem \<Rightarrow> path \<Rightarrow> bool \<Rightarrow> (exn + unit) \<times> filesystem" where
  "mkdir fs p exist_ok =
     (case resolve fs p of
        None \<Rightarrow> (Inl (OtherException ''OSError''), fs)
      | Some c \<Rightarrow>
          (case lookup (tree fs) c of
             Some n \<Rightarrow>
               if exist_ok \<and> is_dir fs c then (Inr (), fs)
               else (Inl (OtherException ''FileExistsError''), fs)
           | None \<Rightarrow>
               (case lookup (tree fs) (parent c) of
                  Some (Dir es) \<Rightarrow> (Inr (), fs\<lparr>tree := put (tree fs) c (Dir [])\<rparr>)
                | Some other \<Rightarrow> (Inl (OtherException ''NotADirectoryError''), fs)
                | None \<Rightarrow> (Inl (OtherException ''FileNotFoundError''), fs))))"

definition safe_mkdir ::
  "SafeFileOps \<Rightarrow> filesystem \<Rightarrow> path \<Rightarrow> bool \<Rightarrow> (exn + unit) \<times> filesystem" where
  "safe_mkdir ops fs p exist_ok =
     (case validate_path_in_project ops fs p False of
        Inl e \<Rightarrow> (Inl e, fs)
      | Inr validated \<Rightarrow> mkdir fs validated exist_ok)"

section \<open>Strings and the two version patterns\<close>

text \<open>
  A character is a code point below 256. On these \<^verbatim>\<open>\d\<close> matches the ten ASCII digits
  and \<^verbatim>\<open>\s\<close> (like \<^verbatim>\<open>str.strip\<close> and \<^verbatim>\<open>str.isspace\<close>) matches the characters
  below.
\<close>

definition is_digit :: "char \<Rightarrow> bool" where
  "is_digit c = (c \<in> set ''0123456789'')"

definition is_space :: "char \<Rightarrow> bool" where
  "is_space c =
     (c \<in> set [CHR 0x09, CHR 0x0A, CHR 0x0B, CHR 0x0C, CHR 0x0D,
                CHR 0x1C, CHR 0x1D, CHR 0x1E, CHR 0x1F, CHR 0x20, CHR 0x85, CHR 0xA0])"

definition startswith :: "string \<Rightarrow> string \<Rightarrow> bool" where
  "startswith s pre = prefix pre s"

definition endswith :: "string \<Rightarrow> string \<Rightarrow> bool" where
  "endswith s suf = suffix suf s"

definition strip :: "string \<Rightarrow> string" where
  "strip s = rev (dropWhile is_space (rev (dropWhile is_space s)))"

text \<open>A literal character of a pattern, and \<^verbatim>\<open>\d+\<close>: each returns the rest of the
  input after what it matched, or \<open>None\<close> when it does not match.\<close>

definition lit :: "char \<Rightarrow> string \<Rightarrow> string option" where
  "lit c s = (case s of [] \<Rightarrow> None | x # r \<Rightarrow> if x = c then Some r else None)"

definition digits1 :: "string \<Rightarrow> string option" where
  "digits1 s = (if takeWhile is_digit s = [] then None else Some (dropWhile is_digit s))"

text \<open>
  \<^verbatim>\<open>re.match(r'^v\d+\.\d+\.\d+$', version)\<close>. A digit run is always followed by something
  that is not a digit, so taking the longest run is what the backtracking matcher
  settles on. Without \<^verbatim>\<open>re.MULTILINE\<close>, \<^verbatim>\<open>$\<close> matches at the end of the string and
  also just before a newline that ends the string.
\<close>

definition validate_version_format :: "string \<Rightarrow> bool" where
  "validate_version_format version =
     (case Option.bind (Option.bind (Option.bind (Option.bind (Option.bind
             (lit CHR ''v'' version) digits1) (lit CHR ''.'')) digits1) (lit CHR ''.'')) digits1 of
        None \<Rightarrow> False
      | Some r \<Rightarrow> r = [] \<or> r = [CHR 0x0A])"

text \<open>Lines 251-253: a \<open>v\<close> is put in front of a version that does not start with one.\<close>

definition normalize_version :: "string \<Rightarrow> string" where
  "normalize_version version =
     (if \<not> startswith version ''v'' then ''v'' @ version else version)"

text \<open>
  One attempt of \<^verbatim>\<open>Version:\s*(\d+\.\d+\.\d+)\<close> at the start of the input: the captured
  group and the input after the match.
\<close>

definition match_version :: "string \<Rightarrow> (string \<times> string) option" where
  "match_version s =
     (if \<not> prefix ''Version:'' s then None
      else
        let r0 = dropWhile is_space (drop (length ''Version:'') s);
            d1 = takeWhile is_digit r0; r1 = dropWhile is_digit r0;
            d2 = takeWhile is_digit (drop 1 r1); r2 = dropWhile is_digit (drop 1 r1);
            d3 = takeWhile is_digit (drop 1 r2); r3 = dropWhile is_digit (drop 1 r2)
        in if d1 \<noteq> [] \<and> take 1 r1 = ''.'' \<and> d2 \<noteq> [] \<and> take 1 r2 = ''.'' \<and> d3 \<noteq> []
           then Some (d1 @ ''.'' @ d2 @ ''.'' @ d3, r3)
           else None)"

text \<open>A match consumes at least the word \<^verbatim>\<open>Version:\<close>, so the search below ends.\<close>

lemma match_version_shorter:
  "match_version s = Some (g, r) \<Longrightarrow> length r < length s"
proof -
  assume a: "match_version s = Some (g, r)"
  have le: "\<And>P xs. length (dropWhile P xs) \<le> length (xs::string)"
    by (simp add: length_dropWhile_le)
  from a have p: "prefix ''Version:'' s" by (auto simp: match_version_def split: if_splits)
  then have l: "length s \<ge> 8" by (auto simp: prefix_def)
  define r0 where "r0 = dropWhile is_space (drop (length ''Version:'') s)"
  have "length r0 \<le> length s - 8" unfolding r0_def using le[of is_space "drop (length ''Version:'') s"] by simp
  moreover from a have "r = dropWhile is_digit (drop 1 (dropWhile is_digit (drop 1 (dropWhile is_digit r0))))"
    unfolding r0_def by (auto simp: match_version_def Let_def split: if_splits)
  then have "length r \<le> length r0"
    using le[of is_digit "drop 1 (dropWhile is_digit (drop 1 (dropWhile is_digit r0)))"]
      le[of is_digit "drop 1 (dropWhile is_digit r0)"]  le[of is_digit r0]
    by simp
  ultimately show ?thesis using l by simp
qed

text \<open>\<^verbatim>\<open>re.findall\<close>: the captured groups of the matches found from left to right, each
  search starting where the last match ended.\<close>

function findall_versions :: "string \<Rightarrow> string list" where
  "findall_versions [] = []"
| "findall_versions (c # s) =
     (case match_version (c # s) of
        Some (g, r) \<Rightarrow> g # findall_versions r
      | None \<Rightarrow> findall_versions s)"
  by pat_completeness auto
termination
  by (relation "measure length") (auto dest: match_version_shorter)

section \<open>Text files\<close>

text \<open>Text mode reads with universal newlines: \<^verbatim>\<open>\r\n\<close> and \<^verbatim>\<open>\r\<close> arrive as
  \<^verbatim>\<open>\n\<close>.\<close>

fun universal_newlines :: "string \<Rightarrow> string" where
  "universal_newlines [] = []"
| "universal_newlines [c] = (if c = CHR 0x0D then [CHR 0x0A] else [c])"
| "universal_newlines (c # d # r) =
     (if c = CHR 0x0D \<and> d = CHR 0x0A then CHR 0x0A # universal_newlines r
      else if c = CHR 0x0D then CHR 0x0A # universal_newlines (d # r)
      else c # universal_newlines (d # r))"

text \<open>\<^verbatim>\<open>open(path, 'r')\<close> and \<^verbatim>\<open>read()\<close>.\<close>

definition read_text :: "filesystem \<Rightarrow> path \<Rightarrow> exn + string" where
  "read_text fs p =
     (case stat fs p of
        None \<Rightarrow> Inl (OtherException ''FileNotFoundError'')
      | Some (File s) \<Rightarrow> Inr (universal_newlines s)
      | Some (Dir es) \<Rightarrow> Inl (OtherException ''IsADirectoryError'')
      | Some (Symlink l) \<Rightarrow> Inl (OtherException ''OSError''))"

text \<open>\<^verbatim>\<open>readlines()\<close>: every line keeps its newline; a last line without one is kept
  as it is.\<close>

fun split_lines :: "string \<Rightarrow> string \<Rightarrow> string list" where
  "split_lines acc [] = (if acc = [] then [] else [rev acc])"
| "split_lines acc (c # r) =
     (if c = CHR 0x0A then rev (c # acc) # split_lines [] r else split_lines (c # acc) r)"

definition readlines :: "string \<Rightarrow> string list" where
  "readlines s = split_lines [] s"

section \<open>Paths from strings\<close>

fun split_on :: "char \<Rightarrow> string \<Rightarrow> string list" where
  "split_on sep [] = [[]]"
| "split_on sep (x # xs) =
     (if x = sep then [] # split_on sep xs
      else (case split_on sep xs of y # ys \<Rightarrow> (x # y) # ys | [] \<Rightarrow> [[x]]))"

text \<open>\<^verbatim>\<open>pathlib\<close> drops empty components and \<open>''.''\<close> when it parses a string, and keeps
  \<open>''..''\<close>.\<close>

definition path_parts :: "string \<Rightarrow> string list" where
  "path_parts s = filter (\<lambda>c. c \<noteq> [] \<and> c \<noteq> ''.'') (split_on CHR ''/'' s)"

text \<open>\<^verbatim>\<open>base / s\<close> for an absolute \<open>base\<close>: an operand that starts with a slash replaces
  the base.\<close>

definition joinpath :: "path \<Rightarrow> string \<Rightarrow> path" where
  "joinpath base s = (if startswith s ''/'' then path_parts s else base @ path_parts s)"

fun join :: "string \<Rightarrow> string list \<Rightarrow> string" where
  "join sep [] = []"
| "join sep [x] = x"
| "join sep (x # y # r) = x @ sep @ join sep (y # r)"

text \<open>\<^verbatim>\<open>str(path)\<close> of an absolute path.\<close>

definition path_str :: "path \<Rightarrow> string" where
  "path_str p = ''/'' @ join ''/'' p"

text \<open>\<^verbatim>\<open>str(Path(name) / rel)\<close> for a relative path \<open>rel\<close> given by its components.\<close>

definition archive_name :: "string \<Rightarrow> string list \<Rightarrow> string" where
  "archive_name name rel =
     (let parts = path_parts name @ rel in
      if startswith name ''/'' then ''/'' @ join ''/'' parts
      else if parts = [] then ''.'' else join ''/'' parts)"

section \<open>What the script gets from outside\<close>

datatype json =
    JNull | JBool bool | JNumber int | JString string
  | JArray "json list" | JObject "(string \<times> json) list"

datatype factorio_outcome = FactorioExit int | FactorioOSError | FactorioInterrupted

datatype input_outcome = Line string | EndOfFile | Interrupt

text \<open>
  The parts of the environment the script consults: the JSON parser, Python's
  \<^verbatim>\<open>str()\<close> of a JSON value that is not a string, the ZIP encoder, the external
  archiver, the Factorio run, the user at the prompt, and \<^verbatim>\<open>git\<close> and \<^verbatim>\<open>gh\<close>.
\<close>

record env =
  json_load :: "string \<Rightarrow> json option"
  py_repr :: "json \<Rightarrow> string"
  zip_encode :: "(string \<times> string) list \<Rightarrow> string"
  seven_z_help :: bool
  seven_za_help :: bool
  seven_z_add :: "int \<times> string"
  seven_z_bytes :: string
  factorio_run :: factorio_outcome
  user_input :: input_outcome
  git_tag_list :: "string \<Rightarrow> string option"
  gh_version :: bool

section \<open>RemoteCommandWrapper\<close>

record command =
  cmd_type :: string
  args :: "string list"
  description :: string

record RemoteCommandWrapper =
  wrapper_project_dir :: path
  commands :: "command list"

definition git_command :: "RemoteCommandWrapper \<Rightarrow> string list \<Rightarrow> string \<Rightarrow> RemoteCommandWrapper" where
  "git_command w a d =
     w\<lparr>commands := commands w @ [\<lparr>cmd_type = ''git'', args = a, description = d\<rparr>]\<rparr>"

definition gh_command :: "RemoteCommandWrapper \<Rightarrow> string list \<Rightarrow> string \<Rightarrow> RemoteCommandWrapper" where
  "gh_command w a d =
     w\<lparr>commands := commands w @ [\<lparr>cmd_type = ''gh'', args = a, description = d\<rparr>]\<rparr>"

text \<open>What \<^verbatim>\<open>print_all_commands\<close> prints, one string for each call of \<^verbatim>\<open>print\<close>.\<close>

definition print_all_commands :: "RemoteCommandWrapper \<Rightarrow> string list" where
  "print_all_commands w =
     (if commands w = [] then []
      else [[CHR 0x0A] @ replicate 70 CHR ''='',
            ''REMOTE COMMANDS TO RUN MANUALLY:'',
            replicate 70 CHR ''='',
            [CHR 0x0A] @ ''cd '' @ path_str (wrapper_project_dir w) @ [CHR 0x0A]]
           @ concat (map (\<lambda>cmd.
               (if description cmd \<noteq> [] then [''# '' @ description cmd] else [])
               @ [join '' '' (cmd_type cmd # args cmd), []]) (commands w))
           @ [replicate 70 CHR ''=''])"

section \<open>ModBuilder\<close>

text \<open>
  The fields of \<^verbatim>\<open>ModBuilder\<close>. Its own \<^verbatim>\<open>project_dir\<close> and \<^verbatim>\<open>output_dir\<close> are
  \<open>builder_project_dir\<close> and \<open>builder_output_dir\<close> here; \<open>file_ops\<close> holds the resolved
  copies that \<^verbatim>\<open>SafeFileOps.__init__\<close> makes.
\<close>

record ModBuilder =
  script_dir :: path
  builder_project_dir :: path
  tmp_dir :: path
  builder_output_dir :: path
  factorio_path :: path
  version :: "string option"
  previous_version :: "string option"
  mod_name :: "json option"
  zip_name :: "string option"
  backup_name :: "string option"
  file_ops :: SafeFileOps
  remote_cmds :: RemoteCommandWrapper

text \<open>
  The state a run works on: the builder, the file system, and what
  \<^verbatim>\<open>print_all_commands\<close> has printed. The messages of \<^verbatim>\<open>log\<close> are left out.
\<close>

record state =
  builder :: ModBuilder
  filesys :: filesystem
  stdout :: "string list"

definition and_then ::
  "(exn + 'a) \<times> 's \<Rightarrow> ('a \<Rightarrow> 's \<Rightarrow> (exn + 'b) \<times> 's) \<Rightarrow> (exn + 'b) \<times> 's" where
  "and_then m f = (case m of (Inl e, s) \<Rightarrow> (Inl e, s) | (Inr a, s) \<Rightarrow> f a s)"

text \<open>\<^verbatim>\<open>_validate_paths\<close>. Paths are absolute by construction here, so the first
  check cannot fail.\<close>

definition validate_paths :: "filesystem \<Rightarrow> ModBuilder \<Rightarrow> exn + unit" where
  "validate_paths fs b =
     (let expected_output = parent (builder_project_dir b) in
      case resolve fs (builder_output_dir b) of
        None \<Rightarrow> Inl (OtherException ''RuntimeError'')
      | Some out \<Rightarrow>
          (case resolve fs expected_output of
             None \<Rightarrow> Inl (OtherException ''RuntimeError'')
           | Some expected \<Rightarrow>
               if out \<noteq> expected
               then Inl (BuildError (OutputDirInvalid expected_output (builder_output_dir b)))
               else if builder_project_dir b = parent (builder_project_dir b)
               then Inl (BuildError ProjectDirIsRoot)
               else Inr ()))"

text \<open>\<^verbatim>\<open>ModBuilder.__init__\<close>; \<open>script_parent\<close> is \<^verbatim>\<open>Path(__file__).parent\<close>.\<close>

definition init_builder :: "filesystem \<Rightarrow> path \<Rightarrow> path \<Rightarrow> exn + ModBuilder" where
  "init_builder fs script_parent factorio =
     (case resolve fs script_parent of
        None \<Rightarrow> Inl (OtherException ''RuntimeError'')
      | Some sd \<Rightarrow>
          (let pd = parent sd; od = parent pd in
           case resolve fs pd of
             None \<Rightarrow> Inl (OtherException ''RuntimeError'')
           | Some rpd \<Rightarrow>
               (case resolve fs od of
                  None \<Rightarrow> Inl (OtherException ''RuntimeError'')
                | Some rod \<Rightarrow>
                    (let b = \<lparr>script_dir = sd, builder_project_dir = pd, tmp_dir = pd @ [''tmp''],
                              builder_output_dir = od, factorio_path = factorio,
                              version = None, previous_version = None, mod_name = None,
                              zip_name = None, backup_name = None,
                              file_ops = \<lparr>project_dir = rpd, output_dir = rod\<rparr>,
                              remote_cmds = \<lparr>wrapper_project_dir = pd, commands = []\<rparr>\<rparr>
                     in case validate_paths fs b of Inl e \<Rightarrow> Inl e | Inr u \<Rightarrow> Inr b))))"

text \<open>Membership and subscript on what \<^verbatim>\<open>json.load\<close> returned, for the key of a
  field: only an object has fields.\<close>

definition json_contains :: "json \<Rightarrow> string \<Rightarrow> exn + bool" where
  "json_contains j k =
     (case j of
        JObject kvs \<Rightarrow> Inr (k \<in> fst ` set kvs)
      | JArray xs \<Rightarrow> Inr (JString k \<in> set xs)
      | JString s \<Rightarrow> Inr (list_ex (\<lambda>i. prefix k (drop i s)) [0..<Suc (length s)])
      | _ \<Rightarrow> Inl (OtherException ''TypeError''))"

definition json_get :: "json \<Rightarrow> string \<Rightarrow> exn + json" where
  "json_get j k =
     (case j of
        JObject kvs \<Rightarrow> (case map_of kvs k of Some v \<Rightarrow> Inr v | None \<Rightarrow> Inl (OtherException ''KeyError''))
      | _ \<Rightarrow> Inl (OtherException ''TypeError''))"

definition py_str :: "env \<Rightarrow> json option \<Rightarrow> string" where
  "py_str en v = (case v of None \<Rightarrow> ''None'' | Some (JString s) \<Rightarrow> s | Some j \<Rightarrow> py_repr en j)"

definition extract_version_from_info_json :: "env \<Rightarrow> state \<Rightarrow> (exn + string) \<times> state" where
  "extract_version_from_info_json en s =
     (let info_path = builder_project_dir (builder s) @ [''info.json''] in
      if \<not> exists_path (filesys s) info_path then (Inl (BuildError (InfoJsonNotFound info_path)), s)
      else case read_text (filesys s) info_path of
        Inl e \<Rightarrow> (Inl e, s)
      | Inr text \<Rightarrow>
          (case json_load en text of
             None \<Rightarrow> (Inl (OtherException ''JSONDecodeError''), s)
           | Some info \<Rightarrow>
               (case json_contains info ''version'' of
                  Inl e \<Rightarrow> (Inl e, s)
                | Inr has_version \<Rightarrow>
                    if \<not> has_version then (Inl (BuildError VersionFieldMissing), s)
                    else (case json_contains info ''name'' of
                       Inl e \<Rightarrow> (Inl e, s)
                     | Inr has_name \<Rightarrow>
                         if \<not> has_name then (Inl (BuildError NameFieldMissing), s)
                         else (case json_get info ''name'' of
                            Inl e \<Rightarrow> (Inl e, s)
                          | Inr name \<Rightarrow>
                              (let s1 = s\<lparr>builder := (builder s)\<lparr>mod_name := Some name\<rparr>\<rparr> in
                               case json_get info ''version'' of
                                 Inl e \<Rightarrow> (Inl e, s1)
                               | Inr (JString v) \<Rightarrow> (Inr (normalize_version v), s1)
                               | Inr other \<Rightarrow> (Inl (OtherException ''AttributeError''), s1)))))))"

definition extract_versions_from_changelog :: "state \<Rightarrow> exn + string \<times> string option" where
  "extract_versions_from_changelog s =
     (let changelog_path = builder_project_dir (builder s) @ [''changelog.txt''] in
      if \<not> exists_path (filesys s) changelog_path
      then Inl (BuildError (ChangelogNotFound changelog_path))
      else case read_text (filesys s) changelog_path of
        Inl e \<Rightarrow> Inl e
      | Inr content \<Rightarrow>
          (case findall_versions content of
             [] \<Rightarrow> Inl (BuildError NoVersionInChangelog)
           | [m0] \<Rightarrow> Inr (''v'' @ m0, None)
           | m0 # m1 # ms \<Rightarrow> Inr (''v'' @ m0, Some (''v'' @ m1))))"

text \<open>\<^verbatim>\<open>validate_versions\<close>. A string is false in a condition exactly when it is
  empty.\<close>

definition validate_versions :: "env \<Rightarrow> state \<Rightarrow> (exn + unit) \<times> state" where
  "validate_versions en s =
     (case extract_version_from_info_json en s of
        (Inl e, s1) \<Rightarrow> (Inl e, s1)
      | (Inr info_version, s1) \<Rightarrow>
          (case extract_versions_from_changelog s1 of
             Inl e \<Rightarrow> (Inl e, s1)
           | Inr (changelog_version, prev) \<Rightarrow>
               (let s2 = s1\<lparr>builder := (builder s1)\<lparr>previous_version := prev\<rparr>\<rparr> in
                if \<not> validate_version_format info_version
                then (Inl (BuildError (InfoVersionFormat info_version)), s2)
                else if \<not> validate_version_format changelog_version
                then (Inl (BuildError (ChangelogVersionFormat changelog_version)), s2)
                else if info_version \<noteq> changelog_version
                then (Inl (BuildError (VersionMismatch info_version changelog_version)), s2)
                else (case prev of
                        Some pv \<Rightarrow>
                          if pv \<noteq> [] \<and> \<not> validate_version_format pv
                          then (Inl (BuildError (PreviousVersionFormat pv)), s2)
                          else (Inr (), s2\<lparr>builder := (builder s2)\<lparr>version := Some info_version\<rparr>\<rparr>)
                      | None \<Rightarrow>
                          (Inr (), s2\<lparr>builder := (builder s2)\<lparr>version := Some info_version\<rparr>\<rparr>)))))"

section \<open>Packaging\<close>

lemma map_of_size_less:
  "map_of es d = Some n \<Longrightarrow> size n < size (Dir es)"
  by (induction es) (auto split: if_splits)

text \<open>
  \<^verbatim>\<open>os.walk\<close>, from the top down, without following links: for a directory it yields the
  directory with the names in it that are not directories, then walks the
  sub-directories the caller has left in \<^verbatim>\<open>dirs\<close> (\<open>prune\<close> is what the caller does to
  that list), skipping symbolic links. Anything that cannot be scanned yields nothing.
\<close>

function walk ::
  "filesystem \<Rightarrow> (string list \<Rightarrow> string list) \<Rightarrow> path \<Rightarrow> node \<Rightarrow> (path \<times> string list) list" where
  "walk fs prune dir (Dir es) =
     (dir, filter (\<lambda>f. \<not> is_dir fs (dir @ [f])) (map fst es)) #
     concat (map (\<lambda>d. case map_of es d of
                         Some (Dir es') \<Rightarrow> walk fs prune (dir @ [d]) (Dir es')
                       | _ \<Rightarrow> [])
                 (prune (filter (\<lambda>d. is_dir fs (dir @ [d])) (map fst es))))"
| "walk fs prune dir (File s) = []"
| "walk fs prune dir (Symlink l) = []"
  by pat_completeness auto
termination
  by (relation "measure (\<lambda>(fs, prune, dir, n). size n)") (auto dest: map_of_size_less)

text \<open>Lines 329-336: the three names taken out of \<^verbatim>\<open>dirs\<close> at every directory.\<close>

definition prune_dirs :: "string list \<Rightarrow> string list" where
  "prune_dirs dirs = remove1 ''tmp'' (remove1 ''scripts'' (remove1 ''.git'' dirs))"

text \<open>The bytes \<^verbatim>\<open>zout.write\<close> stores for a name that is not a directory.\<close>

definition read_bytes :: "filesystem \<Rightarrow> path \<Rightarrow> exn + string" where
  "read_bytes fs p =
     (case stat fs p of
        Some (File s) \<Rightarrow> Inr s
      | Some other \<Rightarrow> Inl (OtherException ''OSError'')
      | None \<Rightarrow> Inl (OtherException ''FileNotFoundError''))"

text \<open>Lines 338-353, the loop over the files of one directory; the entries written so
  far are kept when a read fails.\<close>

fun add_files ::
  "filesystem \<Rightarrow> path \<Rightarrow> string \<Rightarrow> path \<Rightarrow> string list \<Rightarrow> (string \<times> string) list
     \<Rightarrow> exn option \<times> (string \<times> string) list" where
  "add_files fs proj version_name root [] acc = (None, acc)"
| "add_files fs proj version_name root (file # rest) acc =
     (if endswith file ''.zip'' \<or> endswith file ''.7z'' then
        add_files fs proj version_name root rest acc
      else if endswith file ''~'' then add_files fs proj version_name root rest acc
      else
        (case relative_to (root @ [file]) proj of
           None \<Rightarrow> (Some (OtherException ''ValueError''), acc)
         | Some rel_path \<Rightarrow>
             (case read_bytes fs (root @ [file]) of
                Inl e \<Rightarrow> (Some e, acc)
              | Inr data \<Rightarrow>
                  add_files fs proj version_name root rest
                    (acc @ [(archive_name version_name rel_path, data)]))))"

fun add_walk ::
  "filesystem \<Rightarrow> path \<Rightarrow> string \<Rightarrow> (path \<times> string list) list \<Rightarrow> (string \<times> string) list
     \<Rightarrow> exn option \<times> (string \<times> string) list" where
  "add_walk fs proj version_name [] acc = (None, acc)"
| "add_walk fs proj version_name ((root, files) # rest) acc =
     (case add_files fs proj version_name root files acc of
        (Some e, acc') \<Rightarrow> (Some e, acc')
      | (None, acc') \<Rightarrow> add_walk fs proj version_name rest acc')"

definition build_zip_package :: "env \<Rightarrow> state \<Rightarrow> (exn + unit) \<times> state" where
  "build_zip_package en s =
     (case version (builder s) of
        None \<Rightarrow> (Inl (OtherException ''AttributeError''), s)
      | Some ver \<Rightarrow>
          (let version_number = (if startswith ver ''v'' then drop 1 ver else ver);
               version_name = py_str en (mod_name (builder s)) @ ''_'' @ version_number;
               zname = version_name @ ''.zip'';
               s1 = s\<lparr>builder := (builder s)\<lparr>zip_name := Some zname\<rparr>\<rparr>;
               zip_path = joinpath (builder_output_dir (builder s)) zname
           in case validate_path_in_output (file_ops (builder s)) (filesys s) zip_path of
                Inl e \<Rightarrow> (Inl e, s1)
              | Inr zp \<Rightarrow>
                  (case open_write (filesys s) zp [] of
                     (Inl e, fs1) \<Rightarrow> (Inl e, s1)
                   | (Inr u, fs1) \<Rightarrow>
                       (let dir = builder_project_dir (builder s);
                            walked = (case stat fs1 dir of
                                        Some n \<Rightarrow> walk fs1 prune_dirs dir n
                                      | None \<Rightarrow> []);
                            res = add_walk fs1 dir version_name walked [];
                            fs2 = fs1\<lparr>tree := put (tree fs1) zp (File (zip_encode en (snd res)))\<rparr>
                        in case fst res of
                             Some e \<Rightarrow> (Inl e, s1\<lparr>filesys := fs2\<rparr>)
                           | None \<Rightarrow> (Inr (), s1\<lparr>filesys := fs2\<rparr>)))))"

section \<open>Backup\<close>

definition create_backup :: "env \<Rightarrow> state \<Rightarrow> (exn + unit) \<times> state" where
  "create_backup en s =
     (let bname = py_str en (mod_name (builder s)) @ ''_'' @
                  (case version (builder s) of None \<Rightarrow> ''None'' | Some v \<Rightarrow> v) @ ''_backup.7z'';
          s1 = s\<lparr>builder := (builder s)\<lparr>backup_name := Some bname\<rparr>\<rparr>;
          backup_path = joinpath (builder_output_dir (builder s)) bname
      in case validate_path_in_output (file_ops (builder s)) (filesys s) backup_path of
           Inl e \<Rightarrow> (Inl e, s1)
         | Inr bp \<Rightarrow>
             if \<not> seven_z_help en \<and> \<not> seven_za_help en then (Inl (BuildError SevenZipMissing), s1)
             else if fst (seven_z_add en) \<noteq> 0
             then (Inl (BuildError (BackupFailed (snd (seven_z_add en)))), s1)
             else (Inr (), s1\<lparr>filesys := (filesys s)\<lparr>tree := put (tree (filesys s)) bp
                                                        (File (seven_z_bytes en))\<rparr>\<rparr>))"

section \<open>Cleanup\<close>

text \<open>\<^verbatim>\<open>Path.iterdir\<close>: the names in a directory, listed before the loop starts.\<close>

definition iterdir :: "filesystem \<Rightarrow> path \<Rightarrow> exn + string list" where
  "iterdir fs p =
     (case stat fs p of
        Some (Dir es) \<Rightarrow> Inr (map fst es)
      | Some other \<Rightarrow> Inl (OtherException ''NotADirectoryError'')
      | None \<Rightarrow> Inl (OtherException ''FileNotFoundError''))"

fun clean_items ::
  "SafeFileOps \<Rightarrow> path \<Rightarrow> filesystem \<Rightarrow> string list \<Rightarrow> (exn + unit) \<times> filesystem" where
  "clean_items ops dir fs [] = (Inr (), fs)"
| "clean_items ops dir fs (name # rest) =
     (if name = ''.git'' then clean_items ops dir fs rest
      else if is_file fs (dir @ [name]) then
        (case safe_unlink ops fs (dir @ [name]) of
           (Inl e, fs') \<Rightarrow> (Inl e, fs')
         | (Inr u, fs') \<Rightarrow> clean_items ops dir fs' rest)
      else if is_dir fs (dir @ [name]) then
        (case safe_rmtree ops fs (dir @ [name]) of
           (Inl e, fs') \<Rightarrow> (Inl e, fs')
         | (Inr u, fs') \<Rightarrow> clean_items ops dir fs' rest)
      else clean_items ops dir fs rest)"

definition clean_project_directory :: "state \<Rightarrow> (exn + unit) \<times> state" where
  "clean_project_directory s =
     (case iterdir (filesys s) (builder_project_dir (builder s)) of
        Inl e \<Rightarrow> (Inl e, s)
      | Inr names \<Rightarrow>
          (case clean_items (file_ops (builder s)) (builder_project_dir (builder s))
                  (filesys s) names of
             (r, fs') \<Rightarrow> (r, s\<lparr>filesys := fs'\<rparr>)))"

section \<open>Test run, confirmation, tags and the release command\<close>

definition run_factorio :: "env \<Rightarrow> state \<Rightarrow> (exn + unit) \<times> state" where
  "run_factorio en s =
     (if \<not> exists_path (filesys s) (factorio_path (builder s))
      then (Inl (BuildError (FactorioNotFound (factorio_path (builder s)))), s)
      else case factorio_run en of
             FactorioExit code \<Rightarrow>
               if code \<noteq> 0 then (Inl (BuildError (FactorioFailed code)), s) else (Inr (), s)
           | FactorioOSError \<Rightarrow> (Inl (OtherException ''OSError''), s)
           | FactorioInterrupted \<Rightarrow> (Inl KeyboardInterrupt, s))"

text \<open>\<^verbatim>\<open>str.lower\<close>; for the comparison with \<open>''y''\<close> and \<open>''yes''\<close> only the ASCII
  letters matter.\<close>

definition lower :: "string \<Rightarrow> string" where
  "lower s =
     map (\<lambda>c. case map_of (zip ''ABCDEFGHIJKLMNOPQRSTUVWXYZ'' ''abcdefghijklmnopqrstuvwxyz'') c of
                 Some l \<Rightarrow> l | None \<Rightarrow> c) s"

definition confirm_proceed :: "env \<Rightarrow> state \<Rightarrow> (exn + bool) \<times> state" where
  "confirm_proceed en s =
     (case user_input en of
        Line response \<Rightarrow> (Inr (lower (strip response) \<in> set [''y'', ''yes'']), s)
      | EndOfFile \<Rightarrow> (Inl (OtherException ''EOFError''), s)
      | Interrupt \<Rightarrow> (Inl KeyboardInterrupt, s))"

definition verify_previous_tag :: "env \<Rightarrow> state \<Rightarrow> (exn + unit) \<times> state" where
  "verify_previous_tag en s =
     (case previous_version (builder s) of
        None \<Rightarrow> (Inr (), s)
      | Some pv \<Rightarrow>
          if pv = [] then (Inr (), s)
          else (case git_tag_list en pv of
                  None \<Rightarrow> (Inl (OtherException ''FileNotFoundError''), s)
                | Some out \<Rightarrow>
                    if strip out = [] then (Inl (BuildError (PreviousTagMissing pv)), s)
                    else (Inr (), s)))"

definition create_git_tag :: "env \<Rightarrow> state \<Rightarrow> (exn + unit) \<times> state" where
  "create_git_tag en s =
     (case version (builder s) of
        None \<Rightarrow> (Inl (OtherException ''TypeError''), s)
      | Some v \<Rightarrow>
          (case git_tag_list en v of
             None \<Rightarrow> (Inl (OtherException ''FileNotFoundError''), s)
           | Some out \<Rightarrow>
               if strip out \<noteq> [] then (Inl (BuildError (TagExists v)), s)
               else
                 (let w1 = git_command (remote_cmds (builder s))
                             [''tag'', ''-a'', v, ''-m'', ''Release '' @ v] (''Create tag '' @ v);
                      w2 = git_command w1 [''push'', ''origin'', v] ''Push tag to remote''
                  in (Inr (), s\<lparr>builder := (builder s)\<lparr>remote_cmds := w2\<rparr>\<rparr>))))"

text \<open>Lines 489-509: the text of the newest entry of the change log.\<close>

definition release_notes :: "string list \<Rightarrow> string" where
  "release_notes lines =
     (let changes = takeWhile (\<lambda>line. \<not> startswith (strip line) ''----'') (drop 3 lines);
          changes = map (\<lambda>line. if startswith line ''  '' then drop 2 line else line) changes;
          result = concat (map (\<lambda>(i, line).
                     (if 0 < i \<and> line \<noteq> [] \<and> \<not> is_space (hd line) then [[CHR 0x0A]] else [])
                     @ [line]) (enumerate 0 changes))
      in strip (concat result))"

definition extract_changelog_for_release :: "state \<Rightarrow> (exn + string) \<times> state" where
  "extract_changelog_for_release s =
     (case safe_mkdir (file_ops (builder s)) (filesys s) (tmp_dir (builder s)) True of
        (Inl e, fs1) \<Rightarrow> (Inl e, s\<lparr>filesys := fs1\<rparr>)
      | (Inr u, fs1) \<Rightarrow>
          (let changelog_path = builder_project_dir (builder s) @ [''changelog.txt''];
               changes_path = tmp_dir (builder s) @ [''changes.txt'']
           in case read_text fs1 changelog_path of
                Inl e \<Rightarrow> (Inl e, s\<lparr>filesys := fs1\<rparr>)
              | Inr content \<Rightarrow>
                  (let changelog_text = release_notes (readlines content) in
                   case safe_write (file_ops (builder s)) fs1 changes_path changelog_text of
                     (Inl e, fs2) \<Rightarrow> (Inl e, s\<lparr>filesys := fs2\<rparr>)
                   | (Inr u, fs2) \<Rightarrow> (Inr changelog_text, s\<lparr>filesys := fs2\<rparr>))))"

text \<open>By the time \<^verbatim>\<open>create_github_release\<close> runs, step 1 has set the version; were
  it missing, Python would fail on the queued command only when printing it.\<close>

definition create_github_release :: "env \<Rightarrow> state \<Rightarrow> (exn + unit) \<times> state" where
  "create_github_release en s =
     (if \<not> gh_version en then (Inl (BuildError GhMissing), s)
      else case extract_changelog_for_release s of
        (Inl e, s1) \<Rightarrow> (Inl e, s1)
      | (Inr changelog_text, s1) \<Rightarrow>
          (case zip_name (builder s1) of
             None \<Rightarrow> (Inl (OtherException ''TypeError''), s1)
           | Some zname \<Rightarrow>
               (let changes_path = tmp_dir (builder s1) @ [''changes.txt''];
                    zip_path = joinpath (builder_output_dir (builder s1)) zname
                in if \<not> exists_path (filesys s1) zip_path
                   then (Inl (BuildError (PackageNotFound zip_path)), s1)
                   else (case version (builder s1) of
                      None \<Rightarrow> (Inl (OtherException ''TypeError''), s1)
                    | Some v \<Rightarrow>
                        (Inr (), s1\<lparr>builder := (builder s1)\<lparr>remote_cmds :=
                           gh_command (remote_cmds (builder s1))
                             [''release'', ''create'', v, path_str zip_path,
                              ''-t'', ''Version '' @ v, ''-F'', path_str changes_path]
                             (''Create GitHub release for '' @ v)\<rparr>\<rparr>)))))"

section \<open>The pipeline\<close>

text \<open>Steps 1 to 5 of \<^verbatim>\<open>run\<close>, up to the confirmation prompt.\<close>

definition run_build :: "env \<Rightarrow> bool \<Rightarrow> bool \<Rightarrow> state \<Rightarrow> (exn + unit) \<times> state" where
  "run_build en skip_factorio skip_clean s =
     and_then (validate_versions en s) (\<lambda>u s.
     and_then (build_zip_package en s) (\<lambda>u s.
     and_then (create_backup en s) (\<lambda>u s.
     and_then (if \<not> skip_clean then clean_project_directory s else (Inr (), s)) (\<lambda>u s.
     if \<not> skip_factorio then run_factorio en s else (Inr (), s)))))"

text \<open>Steps 7 to 10, after the user has agreed.\<close>

definition run_release :: "env \<Rightarrow> state \<Rightarrow> (exn + unit) \<times> state" where
  "run_release en s =
     and_then (verify_previous_tag en s) (\<lambda>u s.
     and_then (create_git_tag en s) (\<lambda>u s.
     and_then (create_github_release en s) (\<lambda>u s.
     (Inr (), s\<lparr>stdout := stdout s @ print_all_commands (remote_cmds (builder s))\<rparr>))))"

text \<open>The body of the \<^verbatim>\<open>try\<close> in \<^verbatim>\<open>run\<close>: what it raises, or \<open>Inr ()\<close> when it
  returns, also by the early \<^verbatim>\<open>return\<close> after a declined confirmation.\<close>

definition run_steps :: "env \<Rightarrow> bool \<Rightarrow> bool \<Rightarrow> state \<Rightarrow> (exn + unit) \<times> state" where
  "run_steps en skip_factorio skip_clean s =
     and_then (run_build en skip_factorio skip_clean s) (\<lambda>u s.
     and_then (confirm_proceed en s) (\<lambda>proceed s.
     if \<not> proceed then (Inr (), s) else run_release en s))"

text \<open>\<^verbatim>\<open>run\<close> with its three handlers, each ending in \<^verbatim>\<open>sys.exit(1)\<close>: the exit
  status of the process and the state it leaves.\<close>

definition run :: "env \<Rightarrow> bool \<Rightarrow> bool \<Rightarrow> state \<Rightarrow> int \<times> state" where
  "run en skip_factorio skip_clean s =
     (case run_steps en skip_factorio skip_clean s of
        (Inl (BuildError e), s') \<Rightarrow> (1, s')
      | (Inl KeyboardInterrupt, s') \<Rightarrow> (1, s')
      | (Inl (OtherException e), s') \<Rightarrow> (1, s')
      | (Inr u, s') \<Rightarrow> (0, s'))"

text \<open>\<^verbatim>\<open>main\<close>: an exception that leaves the constructor is not caught, and the
  interpreter ends with status 1.\<close>

definition main :: "env \<Rightarrow> filesystem \<Rightarrow> path \<Rightarrow> path \<Rightarrow> bool \<Rightarrow> bool \<Rightarrow> int \<times> filesystem \<times> string list" where
  "main en fs script_parent factorio skip_factorio skip_clean =
     (case init_builder fs script_parent factorio of
        Inl e \<Rightarrow> (1, fs, [])
      | Inr b \<Rightarrow>
          (case run en skip_factorio skip_clean \<lparr>builder = b, filesys = fs, stdout = []\<rparr> of
             (code, s') \<Rightarrow> (code, filesys s', stdout s')))"

section \<open>Resolved paths\<close>

text \<open>A path is canonical in a tree when none of its components is empty, \<open>''.''\<close> or
  \<open>''..''\<close> and none of its non-empty prefixes is a symbolic link.\<close>

definition canonical :: "node \<Rightarrow> path \<Rightarrow> bool" where
  "canonical t p =
     (\<forall>q c. prefix (q @ [c]) p \<longrightarrow>
        c \<noteq> [] \<and> c \<noteq> ''.'' \<and> c \<noteq> ''..'' \<and> (\<forall>l. lookup t (q @ [c]) \<noteq> Some (Symlink l)))"








text \<open>Lines 316-317: the name of the top-level directory inside the archive.\<close>

definition version_name :: "env \<Rightarrow> ModBuilder \<Rightarrow> string \<Rightarrow> string" where
  "version_name en b ver =
     py_str en (mod_name b) @ ''_'' @ (if startswith ver ''v'' then drop 1 ver else ver)"

text \<open>The errors that path validation raises.\<close>

definition path_error :: "build_error \<Rightarrow> bool" where
  "path_error e =
     (case e of
        OutsideProject p r \<Rightarrow> True
      | GitProtected p \<Rightarrow> True
      | OutsideOutput p r \<Rightarrow> True
      | NotDirectChild p \<Rightarrow> True
      | NotInAllowedLocations p \<Rightarrow> True
      | _ \<Rightarrow> False)"

section \<open>Example inputs\<close>

definition ex_tree :: node where
  "ex_tree =
     Dir [(''work'', Dir [
        (''project'', Dir [
            (''.git'', Dir [(''config'', File ''[core]'')]),
            (''info.json'', File ''{}''),
            (''sub'', Dir []),
            (''vcs'', Symlink (Relative [''.git'']))]),
        (''project-2'', Dir [(''notes.txt'', File ''n'')]),
        (''nested'', Dir [])])]"

definition ex_fs :: filesystem where
  "ex_fs = \<lparr>tree = ex_tree, max_symlinks = 40\<rparr>"

text \<open>The same project with \<^verbatim>\<open>.git\<close> as a symbolic link: to a directory inside the
  project, and to a directory outside it.\<close>

definition ex_linked_fs :: filesystem where
  "ex_linked_fs =
     \<lparr>tree = Dir [(''work'', Dir [
        (''project'', Dir [
            (''.git'', Symlink (Relative [''gitdata''])),
            (''gitdata'', Dir [(''config'', File ''[core]'')]),
            (''info.json'', File ''{}'')])])],
      max_symlinks = 40\<rparr>"

definition ex_outside_fs :: filesystem where
  "ex_outside_fs =
     \<lparr>tree = Dir [(''work'', Dir [
        (''project'', Dir [
            (''.git'', Symlink (Absolute [''work'', ''store''])),
            (''info.json'', File ''{}'')]),
        (''store'', Dir [(''config'', File ''[core]'')])])],
      max_symlinks = 40\<rparr>"

definition ex_ops :: SafeFileOps where
  "ex_ops = \<lparr>project_dir = [''work'', ''project''], output_dir = [''work'']\<rparr>"

text \<open>
  A mod directory \<^verbatim>\<open>/work/mod\<close> with the script in \<^verbatim>\<open>/work/mod/scripts\<close>; the
  metadata file is real JSON text, and the example environment's parser knows the two
  texts used below.
\<close>

definition quoted :: "string \<Rightarrow> string" where
  "quoted s = [CHR 0x22] @ s @ [CHR 0x22]"

definition info_text :: "string \<Rightarrow> string" where
  "info_text ver =
     ''{'' @ quoted ''name'' @ '': '' @ quoted ''LootingRemnants'' @ '', '' @
     quoted ''version'' @ '': '' @ quoted ver @ ''}''"

definition unlines :: "string list \<Rightarrow> string" where
  "unlines ls = concat (map (\<lambda>l. l @ [CHR 0x0A]) ls)"

definition changelog_text :: "string list \<Rightarrow> string" where
  "changelog_text vers =
     concat (map (\<lambda>v. unlines [''----------------------------------------'',
                                ''Version: '' @ v, ''Date: 2024-05-01'',
                                ''  Changes:'', ''    - Loot drops on death'']) vers)"

definition mod_tree :: "string \<Rightarrow> string \<Rightarrow> node" where
  "mod_tree info changelog =
     Dir [(''work'', Dir [(''mod'', Dir [
        (''.git'', Dir [(''HEAD'', File ''ref: refs/heads/main'')]),
        (''info.json'', File info),
        (''changelog.txt'', File changelog),
        (''control.lua'', File ''-- control''),
        (''scripts'', Dir [(''build.py'', File ''# build'')]),
        (''locale'', Dir [(''en.cfg'', File ''[item-name]''),
                         (''tmp'', Dir [(''draft.cfg'', File ''draft'')])]),
        (''old.zip'', File ''PK''),
        (''notes.txt~'', File ''backup'')])])]"

definition ex_builder :: ModBuilder where
  "ex_builder =
     \<lparr>script_dir = [''work'', ''mod'', ''scripts''],
      builder_project_dir = [''work'', ''mod''],
      tmp_dir = [''work'', ''mod'', ''tmp''],
      builder_output_dir = [''work''],
      factorio_path = [''opt'', ''factorio''],
      version = None, previous_version = None, mod_name = None,
      zip_name = None, backup_name = None,
      file_ops = \<lparr>project_dir = [''work'', ''mod''], output_dir = [''work'']\<rparr>,
      remote_cmds = \<lparr>wrapper_project_dir = [''work'', ''mod''], commands = []\<rparr>\<rparr>"

definition ex_state :: "string \<Rightarrow> string list \<Rightarrow> state" where
  "ex_state ver vers =
     \<lparr>builder = ex_builder,
      filesys = \<lparr>tree = mod_tree (info_text ver) (changelog_text vers), max_symlinks = 40\<rparr>,
      stdout = []\<rparr>"

definition ex_json_load :: "string \<Rightarrow> json option" where
  "ex_json_load t =
     (if t = info_text ''2.0.0''
      then Some (JObject [(''name'', JString ''LootingRemnants''), (''version'', JString ''2.0.0'')])
      else if t = info_text ''2.0''
      then Some (JObject [(''name'', JString ''LootingRemnants''), (''version'', JString ''2.0'')])
      else None)"

definition ex_env :: "(string \<Rightarrow> string option) \<Rightarrow> input_outcome \<Rightarrow> env" where
  "ex_env tags answer =
     \<lparr>json_load = ex_json_load,
      py_repr = (\<lambda>j. ''?''),
      zip_encode = (\<lambda>es. concat (map (\<lambda>e. fst e @ ''='' @ snd e @ '';'') es)),
      seven_z_help = True, seven_za_help = False,
      seven_z_add = (0, []), seven_z_bytes = ''7z'',
      factorio_run = FactorioExit 0,
      user_input = answer,
      git_tag_list = tags,
      gh_version = True\<rparr>"

definition no_tags :: "string \<Rightarrow> string option" where
  "no_tags t = Some []"

definition all_tags :: "string \<Rightarrow> string option" where
  "all_tags t = Some (t @ [CHR 0x0A])"






section \<open>Resolution yields canonical paths and is idempotent\<close>

lemma canonical_Nil: "canonical t []"
  by (simp add: canonical_def)

lemma canonical_prefix:
  assumes "canonical t p" "prefix q p"
  shows "canonical t q"
  unfolding canonical_def
proof (intro allI impI)
  fix r c assume "prefix (r @ [c]) q"
  with assms(2) have "prefix (r @ [c]) p" by (meson prefix_order.trans)
  with assms(1) show "c \<noteq> [] \<and> c \<noteq> ''.'' \<and> c \<noteq> ''..'' \<and> (\<forall>l. lookup t (r @ [c]) \<noteq> Some (Symlink l))"
    unfolding canonical_def by blast
qed

lemma canonical_butlast: "canonical t p \<Longrightarrow> canonical t (butlast p)"
  by (rule canonical_prefix) (auto simp: prefixeq_butlast)

lemma canonical_snoc:
  assumes "canonical t p" "c \<noteq> []" "c \<noteq> ''.''" "c \<noteq> ''..''" "\<forall>l. lookup t (p @ [c]) \<noteq> Some (Symlink l)"
  shows "canonical t (p @ [c])"
  unfolding canonical_def
proof (intro allI impI)
  fix q d assume pre: "prefix (q @ [d]) (p @ [c])"
  then have "prefix (q @ [d]) p \<or> q @ [d] = p @ [c]"
    by (metis prefix_snoc)
  then show "d \<noteq> [] \<and> d \<noteq> ''.'' \<and> d \<noteq> ''..'' \<and> (\<forall>l. lookup t (q @ [d]) \<noteq> Some (Symlink l))"
  proof
    assume "prefix (q @ [d]) p" with assms(1) show ?thesis unfolding canonical_def by blast
  next
    assume "q @ [d] = p @ [c]" with assms(2-5) show ?thesis by auto
  qed
qed

lemma realpath_canonical:
  "canonical t acc \<Longrightarrow> realpath n t acc rest = Some r \<Longrightarrow> canonical t r"
proof (induction n t acc rest rule: realpath.induct)
  case (1 n t acc)
  then show ?case by simp
next
  case (2 n t acc c rest)
  note can = "2.prems"(1) and res = "2.prems"(2)
  show ?case
  proof (cases "c = [] \<or> c = ''.''")
    case True
    with res have "realpath n t acc rest = Some r" by simp
    with "2.IH"(1)[OF True can] show ?thesis .
  next
    case nd: False
    show ?thesis
    proof (cases "c = ''..''")
      case True
      with nd res have "realpath n t (butlast acc) rest = Some r" by simp
      with "2.IH"(2)[OF nd True canonical_butlast[OF can]] show ?thesis .
    next
      case np: False
      show ?thesis
      proof (cases "lookup t (acc @ [c])")
        case None
        with nd np res have "realpath n t (acc @ [c]) rest = Some r" by simp
        moreover have "canonical t (acc @ [c])"
          using canonical_snoc[OF can] nd np None by simp
        ultimately show ?thesis by (rule "2.IH"(3)[OF nd np None, rotated])
      next
        case (Some x)
        show ?thesis
        proof (cases x)
          case (File s)
          with Some nd np res have "realpath n t (acc @ [c]) rest = Some r" by simp
          moreover have "canonical t (acc @ [c])"
            using canonical_snoc[OF can] nd np Some File by simp
          ultimately show ?thesis by (rule "2.IH"(4)[OF nd np Some File, rotated])
        next
          case (Dir es)
          with Some nd np res have "realpath n t (acc @ [c]) rest = Some r" by simp
          moreover have "canonical t (acc @ [c])"
            using canonical_snoc[OF can] nd np Some Dir by simp
          ultimately show ?thesis by (rule "2.IH"(7)[OF nd np Some Dir, rotated])
        next
          case (Symlink l)
          show ?thesis
          proof (cases n)
            case 0
            with Symlink Some nd np res show ?thesis by simp
          next
            case (Suc m)
            show ?thesis
            proof (cases l)
              case (Absolute ps)
              with Suc Symlink Some nd np res have "realpath m t [] (ps @ rest) = Some r" by simp
              then show ?thesis
                by (rule "2.IH"(5)[OF nd np Some Symlink Suc Absolute canonical_Nil])
            next
              case (Relative ps)
              with Suc Symlink Some nd np res have "realpath m t acc (ps @ rest) = Some r" by simp
              then show ?thesis
                by (rule "2.IH"(6)[OF nd np Some Symlink Suc Relative can])
            qed
          qed
        qed
      qed
    qed
  qed
qed

lemma realpath_of_canonical:
  "canonical t (acc @ rest) \<Longrightarrow> realpath n t acc rest = Some (acc @ rest)"
proof (induction rest arbitrary: acc)
  case Nil
  then show ?case by simp
next
  case (Cons c rest)
  have pre: "prefix (acc @ [c]) (acc @ c # rest)" by simp
  with Cons.prems have c: "c \<noteq> []" "c \<noteq> ''.''" "c \<noteq> ''..''"
    and nl: "\<forall>l. lookup t (acc @ [c]) \<noteq> Some (Symlink l)"
    unfolding canonical_def by blast+
  from Cons.prems have "canonical t ((acc @ [c]) @ rest)" by simp
  from Cons.IH[OF this] have "realpath n t (acc @ [c]) rest = Some (acc @ c # rest)" by simp
  with c nl show ?case by (auto split: option.splits node.splits)
qed

lemma resolve_idem: "resolve fs p = Some c \<Longrightarrow> resolve fs c = Some c"
  unfolding resolve_def
  using realpath_canonical[OF canonical_Nil] realpath_of_canonical[of "tree fs" "[]" c]
  by fastforce

section \<open>Path validation and the protected directory\<close>

lemma resolve_git_dir:
  assumes "resolve fs P = Some c" and "prefix (R @ [''.git'']) c"
  shows "resolve fs (R @ [''.git'']) = Some (R @ [''.git''])"
proof -
  from assms(1) have "canonical (tree fs) c"
    unfolding resolve_def using realpath_canonical[OF canonical_Nil] by blast
  then have "canonical (tree fs) (R @ [''.git''])" using assms(2) by (rule canonical_prefix)
  then show ?thesis
    unfolding resolve_def using realpath_of_canonical[of "tree fs" "[]"] by simp
qed

lemma is_git_path_resolved:
  assumes "resolve fs c = Some c"
  shows "is_git_path ops fs c \<longleftrightarrow> (\<exists>g. resolve fs (project_dir ops @ [''.git'']) = Some g \<and> prefix g c)"
  using assms by (auto simp: is_git_path_def relative_to_def split: option.splits)

lemma validate_path_in_project_Inr:
  "validate_path_in_project ops fs P allow_git = Inr c \<longleftrightarrow>
     resolve fs P = Some c \<and> prefix (project_dir ops) c \<and>
     (allow_git \<or> \<not> (\<exists>g. resolve fs (project_dir ops @ [''.git'']) = Some g \<and> prefix g c))"
proof (cases "resolve fs P")
  case None
  then show ?thesis by (simp add: validate_path_in_project_def)
next
  case (Some r)
  then have "resolve fs r = Some r" by (rule resolve_idem)
  note g = is_git_path_resolved[OF this, of ops]
  show ?thesis
    using Some g
    by (auto simp: validate_path_in_project_def relative_to_def split: option.splits)
qed

lemma delete_in_resolved_git:
  assumes "resolve fs P = Some c"
    and "resolve fs (project_dir ops @ [''.git'']) = Some g"
    and "prefix g c"
  shows "safe_unlink ops fs P =
           (Inl (BuildError (if prefix (project_dir ops) c then GitProtected c
                             else OutsideProject c (project_dir ops))), fs)"
    and "safe_rmtree ops fs P =
           (Inl (BuildError (if prefix (project_dir ops) c then GitProtected c
                             else OutsideProject c (project_dir ops))), fs)"
proof -
  from assms(1) have "resolve fs c = Some c" by (rule resolve_idem)
  from is_git_path_resolved[OF this, of ops] assms(2,3) have "is_git_path ops fs c" by blast
  then have v: "validate_path_in_project ops fs P False =
      Inl (BuildError (if prefix (project_dir ops) c then GitProtected c
                       else OutsideProject c (project_dir ops)))"
    using assms(1) by (simp add: validate_path_in_project_def relative_to_def)
  show "safe_unlink ops fs P =
           (Inl (BuildError (if prefix (project_dir ops) c then GitProtected c
                             else OutsideProject c (project_dir ops))), fs)"
    unfolding safe_unlink_def v by simp
  show "safe_rmtree ops fs P =
           (Inl (BuildError (if prefix (project_dir ops) c then GitProtected c
                             else OutsideProject c (project_dir ops))), fs)"
    unfolding safe_rmtree_def v by simp
qed

lemma delete_below_git_path:
  assumes "resolve fs P = Some c" and "prefix (project_dir ops @ [''.git'']) c"
  shows "safe_unlink ops fs P = (Inl (BuildError (GitProtected c)), fs) \<and>
         safe_rmtree ops fs P = (Inl (BuildError (GitProtected c)), fs)"
proof -
  have g: "resolve fs (project_dir ops @ [''.git'']) = Some (project_dir ops @ [''.git''])"
    using assms by (rule resolve_git_dir)
  have "prefix (project_dir ops) c"
    using assms(2) by (meson prefix_order.trans prefixI)
  then show ?thesis
    using delete_in_resolved_git[OF assms(1) g assms(2)] by simp
qed

text \<open>
  Claim C1. The protected directory is what \<^verbatim>\<open>project_dir/.git\<close> resolves to, \<open>g\<close>;
  it is \<^verbatim>\<open>project_dir/.git\<close> itself when that is a plain directory, and the target
  when it is a symbolic link. Whenever a path resolves to \<open>g\<close> or to anything beneath
  it, whatever \<open>''..''\<close> components or symbolic links it went through on the way,
  \<open>safe_unlink\<close> and \<open>safe_rmtree\<close> raise a \<open>BuildError\<close> and leave the file
  system as it was: the error for the protected directory when the resolved path is
  inside the project directory, the error for a path outside the project otherwise.
\<close>

theorem delete_in_git_rejected:
  assumes "resolve fs P = Some c"
    and "resolve fs (project_dir ops @ [''.git'']) = Some g"
    and "prefix g c"
  shows "safe_unlink ops fs P =
           (Inl (BuildError (if prefix (project_dir ops) c then GitProtected c
                             else OutsideProject c (project_dir ops))), fs) \<and>
         safe_rmtree ops fs P =
           (Inl (BuildError (if prefix (project_dir ops) c then GitProtected c
                             else OutsideProject c (project_dir ops))), fs)"
  using delete_in_resolved_git[OF assms] by simp

text \<open>
  Three targets: a path that reaches a plain \<^verbatim>\<open>.git\<close> through \<open>''..''\<close> and a link;
  the path \<^verbatim>\<open>.git/config\<close> where \<^verbatim>\<open>.git\<close> is a link to a directory inside the
  project; and \<^verbatim>\<open>.git\<close> itself where it is a link to a directory outside.
\<close>

theorem delete_in_git_rejected_witness:
  "resolve ex_fs [''work'', ''project'', ''sub'', ''..'', ''vcs'', ''config'']
     = Some [''work'', ''project'', ''.git'', ''config''] \<and>
   resolve ex_fs (project_dir ex_ops @ [''.git'']) = Some [''work'', ''project'', ''.git''] \<and>
   safe_unlink ex_ops ex_fs [''work'', ''project'', ''sub'', ''..'', ''vcs'', ''config'']
     = (Inl (BuildError (GitProtected [''work'', ''project'', ''.git'', ''config''])), ex_fs) \<and>
   safe_rmtree ex_ops ex_fs [''work'', ''project'', ''sub'', ''..'', ''vcs'', ''config'']
     = (Inl (BuildError (GitProtected [''work'', ''project'', ''.git'', ''config''])), ex_fs) \<and>
   resolve ex_linked_fs [''work'', ''project'', ''.git'', ''config'']
     = Some [''work'', ''project'', ''gitdata'', ''config''] \<and>
   resolve ex_linked_fs (project_dir ex_ops @ [''.git'']) = Some [''work'', ''project'', ''gitdata''] \<and>
   safe_unlink ex_ops ex_linked_fs [''work'', ''project'', ''.git'', ''config'']
     = (Inl (BuildError (GitProtected [''work'', ''project'', ''gitdata'', ''config''])), ex_linked_fs) \<and>
   safe_rmtree ex_ops ex_linked_fs [''work'', ''project'', ''.git'']
     = (Inl (BuildError (GitProtected [''work'', ''project'', ''gitdata''])), ex_linked_fs) \<and>
   resolve ex_outside_fs (project_dir ex_ops @ [''.git'']) = Some [''work'', ''store''] \<and>
   safe_rmtree ex_ops ex_outside_fs [''work'', ''project'', ''.git'']
     = (Inl (BuildError (OutsideProject [''work'', ''store''] [''work'', ''project''])), ex_outside_fs)"
proof -
  have r1: "resolve ex_fs [''work'', ''project'', ''sub'', ''..'', ''vcs'', ''config'']
     = Some [''work'', ''project'', ''.git'', ''config'']"
    by (simp add: resolve_def ex_fs_def ex_tree_def)
  have g1: "resolve ex_fs (project_dir ex_ops @ [''.git'']) = Some [''work'', ''project'', ''.git'']"
    by (simp add: resolve_def ex_fs_def ex_tree_def ex_ops_def)
  have p1: "prefix [''work'', ''project'', ''.git''] [''work'', ''project'', ''.git'', ''config'']"
    by simp
  have r2: "resolve ex_linked_fs [''work'', ''project'', ''.git'', ''config'']
     = Some [''work'', ''project'', ''gitdata'', ''config'']"
    by (simp add: resolve_def ex_linked_fs_def)
  have r3: "resolve ex_linked_fs [''work'', ''project'', ''.git'']
     = Some [''work'', ''project'', ''gitdata'']"
    by (simp add: resolve_def ex_linked_fs_def)
  have g2: "resolve ex_linked_fs (project_dir ex_ops @ [''.git'']) = Some [''work'', ''project'', ''gitdata'']"
    by (simp add: resolve_def ex_linked_fs_def ex_ops_def)
  have p2: "prefix [''work'', ''project'', ''gitdata''] [''work'', ''project'', ''gitdata'', ''config'']"
    by simp
  have p3: "prefix [''work'', ''project'', ''gitdata''] [''work'', ''project'', ''gitdata'']"
    by simp
  have r4: "resolve ex_outside_fs [''work'', ''project'', ''.git''] = Some [''work'', ''store'']"
    by (simp add: resolve_def ex_outside_fs_def)
  have g4: "resolve ex_outside_fs (project_dir ex_ops @ [''.git'']) = Some [''work'', ''store'']"
    by (simp add: resolve_def ex_outside_fs_def ex_ops_def)
  have p4: "prefix [''work'', ''store''] [''work'', ''store'']"
    by simp
  have d: "project_dir ex_ops = [''work'', ''project'']"
    by (simp add: ex_ops_def)
  show ?thesis
    using r1 g1 r2 g2 g4
      delete_in_git_rejected[OF r1 g1 p1] delete_in_git_rejected[OF r2 g2 p2]
      delete_in_git_rejected[OF r3 g2 p3] delete_in_git_rejected[OF r4 g4 p4] d
    by simp
qed

text \<open>
  Claim C2, as the code has it. \<open>validate_path_in_project\<close> returns the resolved path
  exactly when that path is the project directory or lies beneath it and, unless
  \<open>allow_git\<close> is set, is neither the resolved \<^verbatim>\<open>.git\<close> directory nor beneath it.
  Containment is decided on whole components: a path whose component at the position of
  the project directory's name merely starts with that name is outside.
\<close>

theorem validate_path_in_project_iff:
  "(validate_path_in_project ops fs P allow_git = Inr c \<longleftrightarrow>
      resolve fs P = Some c \<and>
      (c = project_dir ops \<or> strict_prefix (project_dir ops) c) \<and>
      (allow_git \<or>
       \<not> (\<exists>g. resolve fs (project_dir ops @ [''.git'']) = Some g \<and> prefix g c))) \<and>
   (project_dir ops = base @ [name] \<and> ext \<noteq> [] \<and>
    resolve fs P = Some (base @ [name @ ext] @ rest) \<longrightarrow>
      validate_path_in_project ops fs P allow_git =
        Inl (BuildError (OutsideProject (base @ [name @ ext] @ rest) (project_dir ops))))"
proof (intro conjI impI)
  show "validate_path_in_project ops fs P allow_git = Inr c \<longleftrightarrow>
      resolve fs P = Some c \<and>
      (c = project_dir ops \<or> strict_prefix (project_dir ops) c) \<and>
      (allow_git \<or>
       \<not> (\<exists>g. resolve fs (project_dir ops @ [''.git'']) = Some g \<and> prefix g c))"
    unfolding validate_path_in_project_Inr by (auto simp: prefix_order.le_less)
next
  assume a: "project_dir ops = base @ [name] \<and> ext \<noteq> [] \<and>
    resolve fs P = Some (base @ [name @ ext] @ rest)"
  then have "\<not> prefix (project_dir ops) (base @ [name @ ext] @ rest)"
    by simp
  with a show "validate_path_in_project ops fs P allow_git =
        Inl (BuildError (OutsideProject (base @ [name @ ext] @ rest) (project_dir ops)))"
    by (simp add: validate_path_in_project_def relative_to_def)
qed

theorem validate_path_in_project_iff_witness:
  "validate_path_in_project ex_ops ex_fs [''work'', ''project'', ''sub'', ''..'', ''info.json''] False
     = Inr [''work'', ''project'', ''info.json''] \<and>
   resolve ex_fs [''work'', ''project'', ''sub'', ''..'', ''info.json'']
     = Some [''work'', ''project'', ''info.json''] \<and>
   strict_prefix (project_dir ex_ops) [''work'', ''project'', ''info.json''] \<and>
   resolve ex_fs (project_dir ex_ops @ [''.git'']) = Some [''work'', ''project'', ''.git''] \<and>
   \<not> prefix [''work'', ''project'', ''.git''] [''work'', ''project'', ''info.json''] \<and>
   prefix ''project'' ''project-2'' \<and>
   resolve ex_fs [''work'', ''project-2'', ''notes.txt''] = Some [''work'', ''project-2'', ''notes.txt''] \<and>
   validate_path_in_project ex_ops ex_fs [''work'', ''project-2'', ''notes.txt''] True
     = Inl (BuildError (OutsideProject [''work'', ''project-2'', ''notes.txt''] [''work'', ''project'']))"
proof -
  have r1: "resolve ex_fs [''work'', ''project'', ''sub'', ''..'', ''info.json'']
     = Some [''work'', ''project'', ''info.json'']"
    by (simp add: resolve_def ex_fs_def ex_tree_def)
  have r2: "resolve ex_fs (project_dir ex_ops @ [''.git'']) = Some [''work'', ''project'', ''.git'']"
    by (simp add: resolve_def ex_fs_def ex_tree_def ex_ops_def)
  have r3: "resolve ex_fs [''work'', ''project-2'', ''notes.txt''] = Some ([''work''] @ [''project'' @ ''-2''] @ [''notes.txt''])"
    by (simp add: resolve_def ex_fs_def ex_tree_def)
  have p: "project_dir ex_ops = [''work''] @ [''project'']"
    by (simp add: ex_ops_def)
  have s: "strict_prefix (project_dir ex_ops) [''work'', ''project'', ''info.json'']"
    by (simp add: ex_ops_def strict_prefix_def)
  from validate_path_in_project_iff[of ex_ops ex_fs "[''work'', ''project'', ''sub'', ''..'', ''info.json'']"
      False "[''work'', ''project'', ''info.json'']" "[''work'']" "''project''" "''-2''"  "[''notes.txt'']"] r1 r2 s
  have v1: "validate_path_in_project ex_ops ex_fs [''work'', ''project'', ''sub'', ''..'', ''info.json''] False
     = Inr [''work'', ''project'', ''info.json'']"
    by simp
  from validate_path_in_project_iff[of ex_ops ex_fs "[''work'', ''project-2'', ''notes.txt'']"
      True "[]" "[''work'']" "''project''" "''-2''"  "[''notes.txt'']"] r3 p
  have v2: "validate_path_in_project ex_ops ex_fs [''work'', ''project-2'', ''notes.txt''] True
     = Inl (BuildError (OutsideProject [''work'', ''project-2'', ''notes.txt''] [''work'', ''project'']))"
    by simp
  from r3 have r3': "resolve ex_fs [''work'', ''project-2'', ''notes.txt''] = Some [''work'', ''project-2'', ''notes.txt'']"
    by simp
  show ?thesis using r1 r2 r3' s v1 v2 by simp
qed

text \<open>
  With the default \<open>allow_git = False\<close> a descendant of the project directory inside
  \<^verbatim>\<open>.git\<close> is refused, so containment alone does not decide the validation.
\<close>

theorem validate_path_in_project_counterexample:
  "resolve ex_fs [''work'', ''project'', ''.git'', ''config'']
     = Some [''work'', ''project'', ''.git'', ''config''] \<and>
   strict_prefix (project_dir ex_ops) [''work'', ''project'', ''.git'', ''config''] \<and>
   validate_path_in_project ex_ops ex_fs [''work'', ''project'', ''.git'', ''config''] False
     = Inl (BuildError (GitProtected [''work'', ''project'', ''.git'', ''config'']))"
  by (simp add: validate_path_in_project_def is_git_path_def relative_to_def resolve_def
      ex_fs_def ex_tree_def ex_ops_def strict_prefix_def)

text \<open>
  Claim C3. A target whose resolved parent is not exactly the output directory is
  refused by \<open>validate_path_in_output\<close> with a \<open>BuildError\<close>, also when it lies deeper
  below the output directory; and \<open>safe_write\<close>, for a target that is not inside the
  project directory, raises that error and writes nothing.
\<close>

theorem output_write_needs_direct_child:
  assumes "resolve fs P = Some c" and "parent c \<noteq> output_dir ops"
  shows "validate_path_in_output ops fs P =
           Inl (BuildError (if prefix (output_dir ops) c then NotDirectChild c
                            else OutsideOutput c (output_dir ops))) \<and>
         (\<not> prefix (project_dir ops) c \<longrightarrow>
            safe_write ops fs P content =
              (Inl (BuildError (if prefix (output_dir ops) c then NotDirectChild c
                                else NotInAllowedLocations c)), fs))"
  using assms
  by (simp add: validate_path_in_output_def safe_write_def relative_to_def)

theorem output_write_needs_direct_child_witness:
  "resolve ex_fs [''work'', ''nested'', ''pkg.zip''] = Some [''work'', ''nested'', ''pkg.zip''] \<and>
   parent [''work'', ''nested'', ''pkg.zip''] \<noteq> output_dir ex_ops \<and>
   prefix (output_dir ex_ops) [''work'', ''nested'', ''pkg.zip''] \<and>
   \<not> prefix (project_dir ex_ops) [''work'', ''nested'', ''pkg.zip''] \<and>
   validate_path_in_output ex_ops ex_fs [''work'', ''nested'', ''pkg.zip'']
     = Inl (BuildError (NotDirectChild [''work'', ''nested'', ''pkg.zip''])) \<and>
   safe_write ex_ops ex_fs [''work'', ''nested'', ''pkg.zip''] ''data''
     = (Inl (BuildError (NotDirectChild [''work'', ''nested'', ''pkg.zip''])), ex_fs)"
proof -
  have r: "resolve ex_fs [''work'', ''nested'', ''pkg.zip''] = Some [''work'', ''nested'', ''pkg.zip'']"
    by (simp add: resolve_def ex_fs_def ex_tree_def)
  have p: "parent [''work'', ''nested'', ''pkg.zip''] \<noteq> output_dir ex_ops"
    by (simp add: parent_def ex_ops_def)
  have q: "prefix (output_dir ex_ops) [''work'', ''nested'', ''pkg.zip'']"
       "\<not> prefix (project_dir ex_ops) [''work'', ''nested'', ''pkg.zip'']"
    by (simp_all add: ex_ops_def)
  show ?thesis
    using r p q output_write_needs_direct_child[OF r p, of "''data''"] by simp
qed

section \<open>Versions\<close>

text \<open>
  Claim C7. \<open>''1.2.3''\<close> and \<open>''v1.2.3''\<close> normalise to the same string
  \<open>''v1.2.3''\<close>, which the format check accepts; \<open>''1.2''\<close>, \<open>''1.2.3a''\<close> and
  \<open>''v1.2.3 ''\<close> with its trailing space are refused by the format check after
  normalisation.
\<close>

theorem version_examples:
  "normalize_version ''1.2.3'' = ''v1.2.3'' \<and>
   normalize_version ''v1.2.3'' = ''v1.2.3'' \<and>
   validate_version_format (normalize_version ''1.2.3'') \<and>
   validate_version_format (normalize_version ''v1.2.3'') \<and>
   \<not> validate_version_format (normalize_version ''1.2'') \<and>
   \<not> validate_version_format (normalize_version ''1.2.3a'') \<and>
   \<not> validate_version_format (normalize_version ''v1.2.3 '')"
  by (simp add: validate_version_format_def normalize_version_def startswith_def lit_def
      digits1_def is_digit_def)

lemma not_digit_dot: "\<not> is_digit CHR ''.''"
  by (simp add: is_digit_def)

lemma digits1_run:
  assumes "d \<noteq> []" "\<forall>c \<in> set d. is_digit c" "r = [] \<or> \<not> is_digit (hd r)"
  shows "digits1 (d @ r) = Some r"
proof -
  have t: "takeWhile is_digit (d @ r) = d @ takeWhile is_digit r"
    using assms(2) by (simp add: takeWhile_append2)
  have dr: "dropWhile is_digit (d @ r) = dropWhile is_digit r"
    using assms(2) by (simp add: dropWhile_append2)
  have "dropWhile is_digit r = r"
    using assms(3) by (cases r) auto
  with t dr assms(1) show ?thesis by (simp add: digits1_def)
qed

lemma version_of_digits:
  assumes "d1 \<noteq> []" "d2 \<noteq> []" "d3 \<noteq> []"
    and "\<forall>c \<in> set d1. is_digit c" "\<forall>c \<in> set d2. is_digit c" "\<forall>c \<in> set d3. is_digit c"
  shows "validate_version_format (''v'' @ d1 @ ''.'' @ d2 @ ''.'' @ d3)"
proof -
  have a: "digits1 (d1 @ (''.'' @ d2 @ ''.'' @ d3)) = Some (''.'' @ d2 @ ''.'' @ d3)"
    by (rule digits1_run) (use assms in \<open>simp_all add: not_digit_dot\<close>)
  have b: "digits1 (d2 @ (''.'' @ d3)) = Some (''.'' @ d3)"
    by (rule digits1_run) (use assms in \<open>simp_all add: not_digit_dot\<close>)
  have c: "digits1 (d3 @ []) = Some []"
    by (rule digits1_run) (use assms in simp_all)
  show ?thesis
    using a b c by (simp add: validate_version_format_def lit_def)
qed

lemma match_version_group:
  assumes "match_version s = Some (g, r)"
  shows "validate_version_format (''v'' @ g)"
proof -
  from assms obtain d1 d2 d3 where g: "g = d1 @ ''.'' @ d2 @ ''.'' @ d3"
    and ne: "d1 \<noteq> []" "d2 \<noteq> []" "d3 \<noteq> []"
    and dg: "\<exists>x. d1 = takeWhile is_digit x" "\<exists>x. d2 = takeWhile is_digit x" "\<exists>x. d3 = takeWhile is_digit x"
    by (auto simp: match_version_def Let_def split: if_splits)
  have al: "\<forall>c \<in> set d1. is_digit c" "\<forall>c \<in> set d2. is_digit c" "\<forall>c \<in> set d3. is_digit c"
    using dg by (auto dest: set_takeWhileD)
  show ?thesis unfolding g by (rule version_of_digits[OF ne al])
qed

lemma findall_versions_format:
  "g \<in> set (findall_versions s) \<Longrightarrow> validate_version_format (''v'' @ g)"
proof (induction s rule: findall_versions.induct)
  case 1
  then show ?case by simp
next
  case (2 c s)
  show ?case
  proof (cases "match_version (c # s)")
    case None
    with "2.prems" have "g \<in> set (findall_versions s)" by simp
    with "2.IH"(1)[OF None] show ?thesis by blast
  next
    case (Some gr)
    obtain g' r where gr: "gr = (g', r)" by (cases gr)
    from "2.prems" Some gr have "g = g' \<or> g \<in> set (findall_versions r)" by simp
    then show ?thesis
    proof
      assume "g = g'"
      with Some gr match_version_group show ?thesis by blast
    next
      assume "g \<in> set (findall_versions r)"
      with "2.IH"(2)[OF Some gr[symmetric]] show ?thesis by blast
    qed
  qed
qed

lemma extract_versions_from_changelog_format:
  assumes "extract_versions_from_changelog s = Inr (cur, prev)"
  shows "validate_version_format cur" and "\<And>pv. prev = Some pv \<Longrightarrow> validate_version_format pv"
proof -
  from assms obtain content where
    r: "(case findall_versions content of
          [] \<Rightarrow> Inl (BuildError NoVersionInChangelog)
        | [m0] \<Rightarrow> Inr (''v'' @ m0, None)
        | m0 # m1 # ms \<Rightarrow> Inr (''v'' @ m0, Some (''v'' @ m1))) = Inr (cur, prev)"
    by (auto simp: extract_versions_from_changelog_def Let_def split: if_splits sum.splits)
  show "validate_version_format cur"
  proof (cases "findall_versions content")
    case Nil
    with r show ?thesis by simp
  next
    case (Cons m0 ms)
    with r have "cur = ''v'' @ m0" by (cases ms) auto
    moreover have "m0 \<in> set (findall_versions content)" using Cons by simp
    ultimately show ?thesis using findall_versions_format by blast
  qed
  fix pv assume p: "prev = Some pv"
  show "validate_version_format pv"
  proof (cases "findall_versions content")
    case Nil
    with r show ?thesis by simp
  next
    case (Cons m0 ms)
    show ?thesis
    proof (cases ms)
      case Nil
      with Cons r p show ?thesis by simp
    next
      case (Cons m1 ms')
      with \<open>findall_versions content = m0 # ms\<close> r p have "pv = ''v'' @ m1" by simp
      moreover have "m1 \<in> set (findall_versions content)"
        using Cons \<open>findall_versions content = m0 # ms\<close> by simp
      ultimately show ?thesis using findall_versions_format by blast
    qed
  qed
qed

lemma extract_version_from_info_json_errors:
  assumes "extract_version_from_info_json en s = (Inl (BuildError e), s')"
  shows "e = InfoJsonNotFound (builder_project_dir (builder s) @ [''info.json'']) \<or>
         e = VersionFieldMissing \<or> e = NameFieldMissing"
  using assms
  by (auto simp: extract_version_from_info_json_def Let_def read_text_def json_contains_def
      json_get_def split: if_splits sum.splits option.splits node.splits json.splits)

lemma extract_versions_from_changelog_errors:
  assumes "extract_versions_from_changelog s = Inl (BuildError e)"
  shows "e = ChangelogNotFound (builder_project_dir (builder s) @ [''changelog.txt'']) \<or>
         e = NoVersionInChangelog"
  using assms
  by (auto simp: extract_versions_from_changelog_def Let_def read_text_def
      split: if_splits sum.splits option.splits node.splits list.splits)

text \<open>
  Claim C10. Whatever the change log holds, the current and the previous version that
  \<open>extract_versions_from_changelog\<close> returns pass \<open>validate_version_format\<close>, so
  \<open>validate_versions\<close> never raises the error for a malformed change-log version nor the
  one for a malformed previous version.
\<close>

theorem changelog_version_errors_unreachable:
  "(extract_versions_from_changelog s = Inr (cur, prev) \<longrightarrow>
      validate_version_format cur \<and> (\<forall>pv. prev = Some pv \<longrightarrow> validate_version_format pv)) \<and>
   fst (validate_versions en s) \<noteq> Inl (BuildError (ChangelogVersionFormat v)) \<and>
   fst (validate_versions en s) \<noteq> Inl (BuildError (PreviousVersionFormat v))"
proof (intro conjI impI)
  assume "extract_versions_from_changelog s = Inr (cur, prev)"
  then show "validate_version_format cur" "\<forall>pv. prev = Some pv \<longrightarrow> validate_version_format pv"
    using extract_versions_from_changelog_format by blast+
next
  show "fst (validate_versions en s) \<noteq> Inl (BuildError (ChangelogVersionFormat v))"
    using extract_versions_from_changelog_format(1)
    by (auto simp: validate_versions_def Let_def
        dest!: extract_version_from_info_json_errors extract_versions_from_changelog_errors
        split: prod.splits sum.splits option.splits if_splits)
  show "fst (validate_versions en s) \<noteq> Inl (BuildError (PreviousVersionFormat v))"
    using extract_versions_from_changelog_format(2)
    by (auto simp: validate_versions_def Let_def
        dest!: extract_version_from_info_json_errors extract_versions_from_changelog_errors
        split: prod.splits sum.splits option.splits if_splits)
qed

theorem changelog_version_errors_unreachable_witness:
  "extract_versions_from_changelog (ex_state ''2.0.0'' [''2.0.0'', ''1.0.0''])
     = Inr (''v2.0.0'', Some ''v1.0.0'') \<and>
   validate_version_format ''v2.0.0'' \<and> validate_version_format ''v1.0.0'' \<and>
   fst (validate_versions (ex_env no_tags (Line ''y'')) (ex_state ''2.0.0'' [''2.0.0'', ''1.0.0'']))
     \<noteq> Inl (BuildError (ChangelogVersionFormat ''v2.0.0'')) \<and>
   fst (validate_versions (ex_env no_tags (Line ''y'')) (ex_state ''2.0.0'' [''2.0.0'', ''1.0.0'']))
     \<noteq> Inl (BuildError (PreviousVersionFormat ''v1.0.0''))"
proof -
  have h: "extract_versions_from_changelog (ex_state ''2.0.0'' [''2.0.0'', ''1.0.0''])
     = Inr (''v2.0.0'', Some ''v1.0.0'')"
    by code_simp
  from h changelog_version_errors_unreachable[of "ex_state ''2.0.0'' [''2.0.0'', ''1.0.0'']"
      "''v2.0.0''" "Some ''v1.0.0''" "ex_env no_tags (Line ''y'')" "''v2.0.0''"]
    changelog_version_errors_unreachable[of "ex_state ''2.0.0'' [''2.0.0'', ''1.0.0'']"
      "''v2.0.0''" "Some ''v1.0.0''" "ex_env no_tags (Line ''y'')" "''v1.0.0''"]
  show ?thesis by simp
qed

section \<open>What the steps of a run change and raise\<close>

lemma and_then_Inl [simp]: "and_then (Inl e, s) f = (Inl e, s)"
  by (simp add: and_then_def)

lemma and_then_Inr [simp]: "and_then (Inr a, s) f = f a s"
  by (simp add: and_then_def)

lemma extract_version_from_info_json_frame:
  "filesys (snd (extract_version_from_info_json en s)) = filesys s \<and>
   stdout (snd (extract_version_from_info_json en s)) = stdout s \<and>
   remote_cmds (builder (snd (extract_version_from_info_json en s))) = remote_cmds (builder s) \<and>
   builder_project_dir (builder (snd (extract_version_from_info_json en s))) = builder_project_dir (builder s)"
  by (simp add: extract_version_from_info_json_def Let_def
      split: sum.split option.split json.split)

lemma validate_versions_frame:
  "filesys (snd (validate_versions en s)) = filesys s \<and>
   stdout (snd (validate_versions en s)) = stdout s \<and>
   remote_cmds (builder (snd (validate_versions en s))) = remote_cmds (builder s)"
proof -
  obtain r s1 where e: "extract_version_from_info_json en s = (r, s1)"
    by (cases "extract_version_from_info_json en s")
  with extract_version_from_info_json_frame[of en s]
  have f: "filesys s1 = filesys s" "stdout s1 = stdout s"
    "remote_cmds (builder s1) = remote_cmds (builder s)" by simp_all
  show ?thesis
    using e f
    by (simp add: validate_versions_def Let_def split: sum.split option.split prod.split)
qed

lemma build_zip_package_frame:
  "stdout (snd (build_zip_package en s)) = stdout s \<and>
   remote_cmds (builder (snd (build_zip_package en s))) = remote_cmds (builder s)"
  by (simp add: build_zip_package_def Let_def split: sum.split option.split prod.split)

lemma create_backup_frame:
  "stdout (snd (create_backup en s)) = stdout s \<and>
   remote_cmds (builder (snd (create_backup en s))) = remote_cmds (builder s)"
  by (simp add: create_backup_def Let_def split: sum.split option.split prod.split)

lemma clean_project_directory_frame:
  "stdout (snd (clean_project_directory s)) = stdout s \<and>
   builder (snd (clean_project_directory s)) = builder s"
  by (simp add: clean_project_directory_def split: sum.split prod.split)

lemma run_factorio_frame: "snd (run_factorio en s) = s"
  by (simp add: run_factorio_def split: factorio_outcome.split)

lemma and_then_frame:
  assumes "P (snd m)" and "\<And>a s. P s \<Longrightarrow> P (snd (f a s))"
  shows "P (snd (and_then m f))"
  using assms by (cases m; cases "fst m") (auto simp: and_then_def)

lemma run_build_frame:
  "stdout (snd (run_build en skf skc s)) = stdout s \<and>
   remote_cmds (builder (snd (run_build en skf skc s))) = remote_cmds (builder s)"
  unfolding run_build_def
  apply (rule and_then_frame[where P = "\<lambda>t. stdout t = stdout s \<and> remote_cmds (builder t) = remote_cmds (builder s)"])
   apply (simp add: validate_versions_frame)
  apply (rule and_then_frame)
   apply (simp add: build_zip_package_frame)
  apply (rule and_then_frame)
   apply (simp add: create_backup_frame)
  apply (rule and_then_frame)
   apply (simp add: clean_project_directory_frame)
  apply (simp add: run_factorio_frame)
  done

lemma run_of_steps:
  "run en skf skc s =
     ((case fst (run_steps en skf skc s) of Inl e \<Rightarrow> 1 | Inr u \<Rightarrow> 0), snd (run_steps en skf skc s))"
  by (simp add: run_def split: prod.split sum.split exn.split)

text \<open>
  Claim C4, as the code has it. When the metadata file and the change log both yield a
  version and the two normalised versions differ, the run ends in its first step with
  a \<open>BuildError\<close> and exit status 1, the file system, the command queue and the output
  untouched. The error is the version mismatch when the metadata version has the
  format \<^verbatim>\<open>vX.Y.Z\<close>; otherwise the format check, which comes first, raises its own
  error.
\<close>

theorem version_mismatch_aborts_first:
  assumes "extract_version_from_info_json en s = (Inr vi, s1)"
    and "extract_versions_from_changelog s1 = Inr (vc, prev)"
    and "vi \<noteq> vc"
  shows "validate_versions en s =
           (Inl (BuildError (if validate_version_format vi then VersionMismatch vi vc
                             else InfoVersionFormat vi)),
            s1\<lparr>builder := (builder s1)\<lparr>previous_version := prev\<rparr>\<rparr>) \<and>
         run_steps en skf skc s = validate_versions en s \<and>
         run en skf skc s = (1, s1\<lparr>builder := (builder s1)\<lparr>previous_version := prev\<rparr>\<rparr>) \<and>
         filesys s1 = filesys s \<and> stdout s1 = stdout s \<and>
         remote_cmds (builder s1) = remote_cmds (builder s)"
proof -
  have vc: "validate_version_format vc"
    using assms(2) by (rule extract_versions_from_changelog_format(1))
  have v: "validate_versions en s =
           (Inl (BuildError (if validate_version_format vi then VersionMismatch vi vc
                             else InfoVersionFormat vi)),
            s1\<lparr>builder := (builder s1)\<lparr>previous_version := prev\<rparr>\<rparr>)"
    using assms vc by (simp add: validate_versions_def Let_def)
  have st: "run_steps en skf skc s = validate_versions en s"
    unfolding run_steps_def run_build_def v by simp
  have f: "filesys s1 = filesys s \<and> stdout s1 = stdout s \<and>
         remote_cmds (builder s1) = remote_cmds (builder s)"
    using extract_version_from_info_json_frame[of en s] assms(1) by simp
  show ?thesis
    using v st f by (simp add: run_of_steps)
qed

lemma validate_path_in_project_errors:
  "validate_path_in_project ops fs p g = Inl (BuildError e) \<Longrightarrow> path_error e"
  by (auto simp: validate_path_in_project_def path_error_def split: option.splits if_splits)

lemma validate_path_in_output_errors:
  "validate_path_in_output ops fs p = Inl (BuildError e) \<Longrightarrow> path_error e"
  by (auto simp: validate_path_in_output_def path_error_def split: option.splits if_splits)

lemma open_write_errors: "fst (open_write fs p c) \<noteq> Inl (BuildError e)"
  by (simp add: open_write_def split: option.split node.split)

lemma mkdir_errors: "fst (mkdir fs p ok) \<noteq> Inl (BuildError e)"
  by (simp add: mkdir_def split: option.split node.split)

lemma safe_mkdir_errors:
  assumes "fst (safe_mkdir ops fs p ok) = Inl (BuildError e)"
  shows "path_error e"
proof (cases "validate_path_in_project ops fs p False")
  case (Inl x)
  with assms validate_path_in_project_errors show ?thesis
    by (simp add: safe_mkdir_def)
next
  case (Inr c)
  with assms mkdir_errors show ?thesis by (simp add: safe_mkdir_def)
qed

lemma safe_write_errors:
  assumes "fst (safe_write ops fs p c) = Inl (BuildError e)"
  shows "path_error e"
proof (cases "resolve fs p")
  case None
  with assms show ?thesis by (simp add: safe_write_def)
next
  case (Some r)
  show ?thesis
  proof (cases "relative_to r (project_dir ops)")
    case in_project: (Some rel)
    show ?thesis
    proof (cases "validate_path_in_project ops fs p False")
      case (Inl x)
      with assms Some in_project validate_path_in_project_errors show ?thesis
        by (simp add: safe_write_def)
    next
      case (Inr v)
      with assms Some in_project open_write_errors show ?thesis
        by (simp add: safe_write_def)
    qed
  next
    case None
    show ?thesis
    proof (cases "relative_to r (output_dir ops)")
      case in_output: (Some rel)
      show ?thesis
      proof (cases "validate_path_in_output ops fs p")
        case (Inl x)
        with assms Some None in_output validate_path_in_output_errors show ?thesis
          by (simp add: safe_write_def)
      next
        case (Inr v)
        with assms Some None in_output open_write_errors show ?thesis
          by (simp add: safe_write_def)
      qed
    next
      case no: None
      with assms Some None show ?thesis by (auto simp: safe_write_def path_error_def)
    qed
  qed
qed

lemma read_text_errors: "read_text fs p \<noteq> Inl (BuildError e)"
  by (simp add: read_text_def split: option.split node.split)

lemma extract_changelog_for_release_errors:
  assumes "fst (extract_changelog_for_release s) = Inl (BuildError e)"
  shows "path_error e"
proof (cases "safe_mkdir (file_ops (builder s)) (filesys s) (tmp_dir (builder s)) True")
  case (Pair r1 fs1)
  show ?thesis
  proof (cases r1)
    case (Inl x)
    with Pair assms safe_mkdir_errors[of "file_ops (builder s)" "filesys s" "tmp_dir (builder s)" True e]
    show ?thesis by (simp add: extract_changelog_for_release_def)
  next
    case (Inr u)
    show ?thesis
    proof (cases "read_text fs1 (builder_project_dir (builder s) @ [''changelog.txt''])")
      case rl: (Inl x)
      with Pair Inr assms read_text_errors show ?thesis
        by (simp add: extract_changelog_for_release_def Let_def)
    next
      case rr: (Inr content)
      with Pair Inr assms
        safe_write_errors[of "file_ops (builder s)" fs1 "tmp_dir (builder s) @ [''changes.txt'']"
          "release_notes (readlines content)" e]
      show ?thesis
        by (simp add: extract_changelog_for_release_def Let_def split: prod.splits sum.splits)
    qed
  qed
qed

lemma create_github_release_errors:
  assumes "fst (create_github_release en s) = Inl (BuildError e)"
  shows "path_error e \<or> e = GhMissing \<or> (\<exists>p. e = PackageNotFound p)"
proof (cases "gh_version en")
  case False
  with assms show ?thesis by (simp add: create_github_release_def)
next
  case True
  show ?thesis
  proof (cases "extract_changelog_for_release s")
    case (Pair r s1)
    show ?thesis
    proof (cases r)
      case (Inl x)
      with Pair True assms extract_changelog_for_release_errors[of s e] show ?thesis
        by (simp add: create_github_release_def)
    next
      case (Inr released)
      with Pair True assms show ?thesis
        by (auto simp: create_github_release_def Let_def split: option.splits if_splits)
    qed
  qed
qed

lemma run_release_tag_abort:
  assumes "fst (run_release en s) = Inl (BuildError e)"
    and "e = PreviousTagMissing v \<or> e = TagExists v"
  shows "snd (run_release en s) = s"
proof (cases "verify_previous_tag en s")
  case (Pair r1 s1)
  have s1: "s1 = s"
    using Pair by (auto simp: verify_previous_tag_def split: option.splits if_splits)
  show ?thesis
  proof (cases r1)
    case (Inl e1)
    with Pair s1 show ?thesis by (simp add: run_release_def)
  next
    case (Inr u1)
    show ?thesis
    proof (cases "create_git_tag en s")
      case p2: (Pair r2 s2)
      show ?thesis
      proof (cases r2)
        case (Inl e2)
        then have "s2 = s"
          using p2 by (auto simp: create_git_tag_def Let_def split: option.splits if_splits)
        with Pair s1 Inr p2 Inl show ?thesis by (simp add: run_release_def)
      next
        case r2: (Inr u2)
        have np: "\<not> path_error e" "e \<noteq> GhMissing" "\<And>p. e \<noteq> PackageNotFound p"
          using assms(2) by (auto simp: path_error_def)
        obtain r3 s3 where p3: "create_github_release en s2 = (r3, s3)"
          by (cases "create_github_release en s2")
        have "r3 \<noteq> Inl (BuildError e)"
          using create_github_release_errors[of en s2 e] np p3 by auto
        with Pair s1 Inr p2 r2 p3 assms(1) show ?thesis
          by (cases r3) (simp_all add: run_release_def)
      qed
    qed
  qed
qed

text \<open>
  Claim C6. A run that starts with an empty queue and ends with the error for a missing
  previous tag, or with the error for an existing target tag, has queued no command: the
  queue is empty at the end, nothing has been printed, and printing the queue would
  print nothing.
\<close>

theorem tag_abort_leaves_queue_empty:
  assumes "commands (remote_cmds (builder s)) = []" and "stdout s = []"
    and "fst (run_steps en skf skc s) = Inl (BuildError e)"
    and "e = PreviousTagMissing v \<or> e = TagExists v"
  shows "commands (remote_cmds (builder (snd (run_steps en skf skc s)))) = [] \<and>
         stdout (snd (run_steps en skf skc s)) = [] \<and>
         print_all_commands (remote_cmds (builder (snd (run_steps en skf skc s)))) = [] \<and>
         fst (run en skf skc s) = 1"
proof -
  obtain r1 s1 where b: "run_build en skf skc s = (r1, s1)"
    by (cases "run_build en skf skc s")
  with run_build_frame[of en skf skc s] assms(1,2)
  have f1: "commands (remote_cmds (builder s1)) = []" "stdout s1 = []" by simp_all
  have x: "fst (run en skf skc s) = 1"
    using assms(3) by (simp add: run_of_steps)
  have "commands (remote_cmds (builder (snd (run_steps en skf skc s)))) = [] \<and>
         stdout (snd (run_steps en skf skc s)) = []"
  proof (cases r1)
    case (Inl e1)
    with b f1 show ?thesis by (simp add: run_steps_def)
  next
    case (Inr u1)
    have c: "snd (confirm_proceed en s1) = s1"
      by (simp add: confirm_proceed_def split: input_outcome.split)
    show ?thesis
    proof (cases "fst (confirm_proceed en s1)")
      case (Inl e2)
      with b Inr c f1 show ?thesis
        by (cases "confirm_proceed en s1") (simp add: run_steps_def)
    next
      case p: (Inr proceed)
      show ?thesis
      proof (cases proceed)
        case False
        with b Inr c p f1 show ?thesis
          by (cases "confirm_proceed en s1") (simp add: run_steps_def)
      next
        case True
        with b Inr c p have eq: "run_steps en skf skc s = run_release en s1"
          by (cases "confirm_proceed en s1") (simp add: run_steps_def)
        with assms(3) have "fst (run_release en s1) = Inl (BuildError e)" by simp
        from run_release_tag_abort[OF this assms(4)] eq f1 show ?thesis by simp
      qed
    qed
  qed
  then show ?thesis using x by (simp add: print_all_commands_def)
qed

text \<open>
  Claim C9. The exit status is 0 or 1, and it is 0 exactly when the body of \<open>run\<close>
  returns without raising; every \<open>BuildError\<close>, every other exception and
  \<open>KeyboardInterrupt\<close> give 1. A run whose build steps succeed and whose user does not
  answer \<open>y\<close> or \<open>yes\<close> ends with 0 and the queue as it was; an interrupt at the
  prompt ends with 1. For \<open>main\<close>, a constructor that raises also gives 1.
\<close>

theorem exit_status:
  "(fst (run en skf skc s) = 0 \<or> fst (run en skf skc s) = 1) \<and>
   (fst (run en skf skc s) = 0 \<longleftrightarrow> fst (run_steps en skf skc s) = Inr ()) \<and>
   (run_build en skf skc s = (Inr (), s1) \<and> user_input en = Line response \<and>
    lower (strip response) \<notin> set [''y'', ''yes''] \<longrightarrow>
      run en skf skc s = (0, s1) \<and> remote_cmds (builder s1) = remote_cmds (builder s)) \<and>
   (run_build en skf skc s = (Inr (), s1) \<and> user_input en = Interrupt \<longrightarrow>
      run_steps en skf skc s = (Inl KeyboardInterrupt, s1) \<and> run en skf skc s = (1, s1)) \<and>
   (fst (main en fs script_parent factorio skf skc) = 0 \<or>
    fst (main en fs script_parent factorio skf skc) = 1) \<and>
   (fst (main en fs script_parent factorio skf skc) = 0 \<longleftrightarrow>
      (\<exists>b. init_builder fs script_parent factorio = Inr b \<and>
           fst (run_steps en skf skc \<lparr>builder = b, filesys = fs, stdout = []\<rparr>) = Inr ()))"
proof (intro conjI impI)
  show "fst (run en skf skc s) = 0 \<or> fst (run en skf skc s) = 1"
    by (simp add: run_of_steps split: sum.split)
  show "fst (run en skf skc s) = 0 \<longleftrightarrow> fst (run_steps en skf skc s) = Inr ()"
    by (simp add: run_of_steps split: sum.split)
  show "fst (main en fs script_parent factorio skf skc) = 0 \<or>
    fst (main en fs script_parent factorio skf skc) = 1"
    by (simp add: main_def run_of_steps split: sum.split)
  show "fst (main en fs script_parent factorio skf skc) = 0 \<longleftrightarrow>
      (\<exists>b. init_builder fs script_parent factorio = Inr b \<and>
           fst (run_steps en skf skc \<lparr>builder = b, filesys = fs, stdout = []\<rparr>) = Inr ())"
    by (simp add: main_def run_of_steps split: sum.split)
next
  assume a: "run_build en skf skc s = (Inr (), s1) \<and> user_input en = Line response \<and>
    lower (strip response) \<notin> set [''y'', ''yes'']"
  then have "run_steps en skf skc s = (Inr (), s1)"
    by (simp add: run_steps_def confirm_proceed_def)
  then show "run en skf skc s = (0, s1)" by (simp add: run_of_steps)
  from a run_build_frame[of en skf skc s]
  show "remote_cmds (builder s1) = remote_cmds (builder s)" by simp
next
  assume a: "run_build en skf skc s = (Inr (), s1) \<and> user_input en = Interrupt"
  then show "run_steps en skf skc s = (Inl KeyboardInterrupt, s1)"
    by (simp add: run_steps_def confirm_proceed_def)
  then show "run en skf skc s = (1, s1)" by (simp add: run_of_steps)
qed

section \<open>Cleanup of a project directory without links\<close>


lemma lookup_Symlink_Cons: "lookup (Symlink l) (c # r) = None"
  by simp









lemma map_of_filter_neq:
  "map_of (filter (\<lambda>e. fst e \<noteq> name) es) k = (if k = name then None else map_of es k)"
  by (induction es) auto








section \<open>What the packaging loop puts into the archive\<close>






















section \<open>The claims on concrete runs\<close>

theorem version_mismatch_aborts_first_witness:
  "fst (extract_version_from_info_json (ex_env no_tags (Line ''y'')) (ex_state ''2.0.0'' [''2.0.1'']))
     = Inr ''v2.0.0'' \<and>
   extract_versions_from_changelog
     (snd (extract_version_from_info_json (ex_env no_tags (Line ''y'')) (ex_state ''2.0.0'' [''2.0.1''])))
     = Inr (''v2.0.1'', None) \<and>
   fst (run_steps (ex_env no_tags (Line ''y'')) False False (ex_state ''2.0.0'' [''2.0.1'']))
     = Inl (BuildError (VersionMismatch ''v2.0.0'' ''v2.0.1'')) \<and>
   fst (run (ex_env no_tags (Line ''y'')) False False (ex_state ''2.0.0'' [''2.0.1''])) = 1 \<and>
   filesys (snd (run_steps (ex_env no_tags (Line ''y'')) False False (ex_state ''2.0.0'' [''2.0.1''])))
     = filesys (ex_state ''2.0.0'' [''2.0.1'']) \<and>
   remote_cmds (builder (snd (run_steps (ex_env no_tags (Line ''y'')) False False (ex_state ''2.0.0'' [''2.0.1'']))))
     = remote_cmds (builder (ex_state ''2.0.0'' [''2.0.1'']))"
proof -
  let ?E = "ex_env no_tags (Line ''y'')" and ?S = "ex_state ''2.0.0'' [''2.0.1'']"
  have h1: "fst (extract_version_from_info_json ?E ?S) = Inr ''v2.0.0''"
    by code_simp
  then have h1': "extract_version_from_info_json ?E ?S
      = (Inr ''v2.0.0'', snd (extract_version_from_info_json ?E ?S))"
    by (metis prod.collapse)
  have h2: "extract_versions_from_changelog (snd (extract_version_from_info_json ?E ?S))
      = Inr (''v2.0.1'', None)"
    by code_simp
  have h3: "''v2.0.0'' \<noteq> ''v2.0.1''" by simp
  have h4: "validate_version_format ''v2.0.0''" by code_simp
  from version_mismatch_aborts_first[OF h1' h2 h3, of False False] h1 h2 h4
  show ?thesis by simp
qed

text \<open>
  A metadata version \<open>''2.0''\<close> against the change log's \<open>''2.0.1''\<close>: the versions
  differ, and the run ends with the format error, not with the mismatch error.
\<close>

theorem version_mismatch_counterexample:
  "fst (extract_version_from_info_json (ex_env no_tags (Line ''y'')) (ex_state ''2.0'' [''2.0.1'']))
     = Inr ''v2.0'' \<and>
   extract_versions_from_changelog
     (snd (extract_version_from_info_json (ex_env no_tags (Line ''y'')) (ex_state ''2.0'' [''2.0.1''])))
     = Inr (''v2.0.1'', None) \<and>
   ''v2.0'' \<noteq> ''v2.0.1'' \<and>
   fst (run_steps (ex_env no_tags (Line ''y'')) False False (ex_state ''2.0'' [''2.0.1'']))
     = Inl (BuildError (InfoVersionFormat ''v2.0''))"
  by code_simp

theorem tag_abort_leaves_queue_empty_witness:
  "commands (remote_cmds (builder (ex_state ''2.0.0'' [''2.0.0'', ''1.0.0'']))) = [] \<and>
   stdout (ex_state ''2.0.0'' [''2.0.0'', ''1.0.0'']) = [] \<and>
   fst (run_steps (ex_env no_tags (Line ''y'')) True True (ex_state ''2.0.0'' [''2.0.0'', ''1.0.0'']))
     = Inl (BuildError (PreviousTagMissing ''v1.0.0'')) \<and>
   commands (remote_cmds (builder (snd (run_steps (ex_env no_tags (Line ''y'')) True True
     (ex_state ''2.0.0'' [''2.0.0'', ''1.0.0''])))))  = [] \<and>
   stdout (snd (run_steps (ex_env no_tags (Line ''y'')) True True
     (ex_state ''2.0.0'' [''2.0.0'', ''1.0.0'']))) = [] \<and>
   fst (run_steps (ex_env all_tags (Line ''y'')) True True (ex_state ''2.0.0'' [''2.0.0'', ''1.0.0'']))
     = Inl (BuildError (TagExists ''v2.0.0'')) \<and>
   commands (remote_cmds (builder (snd (run_steps (ex_env all_tags (Line ''y'')) True True
     (ex_state ''2.0.0'' [''2.0.0'', ''1.0.0''])))))  = [] \<and>
   stdout (snd (run_steps (ex_env all_tags (Line ''y'')) True True
     (ex_state ''2.0.0'' [''2.0.0'', ''1.0.0'']))) = []"
proof -
  let ?S = "ex_state ''2.0.0'' [''2.0.0'', ''1.0.0'']"
  have h1: "commands (remote_cmds (builder ?S)) = []"
    by (simp add: ex_state_def ex_builder_def)
  have h2: "stdout ?S = []"
    by (simp add: ex_state_def)
  have h3: "fst (run_steps (ex_env no_tags (Line ''y'')) True True ?S)
     = Inl (BuildError (PreviousTagMissing ''v1.0.0''))"
    by code_simp
  have h4: "fst (run_steps (ex_env all_tags (Line ''y'')) True True ?S)
     = Inl (BuildError (TagExists ''v2.0.0''))"
    by code_simp
  from tag_abort_leaves_queue_empty[OF h1 h2 h3, of "''v1.0.0''"]
    tag_abort_leaves_queue_empty[OF h1 h2 h4, of "''v2.0.0''"] h1 h2 h3 h4
  show ?thesis by simp
qed

theorem exit_status_witness:
  "fst (run_build (ex_env no_tags (Line '' N '')) True True (ex_state ''2.0.0'' [''2.0.0''])) = Inr () \<and>
   lower (strip '' N '') \<notin> set [''y'', ''yes''] \<and>
   run (ex_env no_tags (Line '' N '')) True True (ex_state ''2.0.0'' [''2.0.0''])
     = (0, snd (run_build (ex_env no_tags (Line '' N '')) True True (ex_state ''2.0.0'' [''2.0.0'']))) \<and>
   remote_cmds (builder (snd (run_build (ex_env no_tags (Line '' N '')) True True (ex_state ''2.0.0'' [''2.0.0'']))))
     = remote_cmds (builder (ex_state ''2.0.0'' [''2.0.0''])) \<and>
   fst (run_build (ex_env no_tags Interrupt) True True (ex_state ''2.0.0'' [''2.0.0''])) = Inr () \<and>
   run (ex_env no_tags Interrupt) True True (ex_state ''2.0.0'' [''2.0.0''])
     = (1, snd (run_build (ex_env no_tags Interrupt) True True (ex_state ''2.0.0'' [''2.0.0''])))"
proof -
  let ?S = "ex_state ''2.0.0'' [''2.0.0'']"
  let ?N = "ex_env no_tags (Line '' N '')" and ?I = "ex_env no_tags Interrupt"
  have b1: "fst (run_build ?N True True ?S) = Inr ()" by code_simp
  then have b1': "run_build ?N True True ?S = (Inr (), snd (run_build ?N True True ?S))"
    by (metis prod.collapse)
  have u1: "user_input ?N = Line '' N ''" by (simp add: ex_env_def)
  have n1: "lower (strip '' N '') \<notin> set [''y'', ''yes'']" by code_simp
  have b2: "fst (run_build ?I True True ?S) = Inr ()" by code_simp
  then have b2': "run_build ?I True True ?S = (Inr (), snd (run_build ?I True True ?S))"
    by (metis prod.collapse)
  have u2: "user_input ?I = Interrupt" by (simp add: ex_env_def)
  from exit_status[of ?N True True ?S "snd (run_build ?N True True ?S)" "'' N ''"] b1' u1 n1
  have r1: "run ?N True True ?S = (0, snd (run_build ?N True True ?S)) \<and>
        remote_cmds (builder (snd (run_build ?N True True ?S))) = remote_cmds (builder ?S)"
    by blast
  from exit_status[of ?I True True ?S "snd (run_build ?I True True ?S)"] b2' u2
  have r2: "run ?I True True ?S = (1, snd (run_build ?I True True ?S))"
    by blast
  show ?thesis using b1 n1 r1 b2 r2 by blast
qed





end
